theory Spec2Isabelle
  imports Main "HOL-Library.AList" "HOL-Library.Word"
begin

section \<open>Quiz synchronisation (quiz-sync.ts): data\<close>

text \<open>
  The service \<open>AddonModQuizSyncProvider\<close> reconciles the offline attempt of a quiz with
  the attempts of the site. Everything it does goes through other services (the offline
  store, the web services of the site, the question delegate, the prefetch handler), none
  of which is part of the service. The embedding keeps those services as parameters
  (the record \<open>env\<close> below) and records every call the service makes to them in a
  history, so that "what was deleted" and "what was submitted" are statements about the
  history.
\<close>

text \<open>A JavaScript object used as \<open>Record<string, string>\<close> (the answers of a question).\<close>

type_synonym answers = "(string \<times> string) list"

text \<open>A JavaScript object used as \<open>Record<number, 'a>\<close>, indexed by slot.\<close>

type_synonym 'a slots = "(nat \<times> 'a) list"

text \<open>
  \<open>Object.keys\<close> and \<open>for ... in\<close> enumerate integer keys in ascending order, each
  once.
\<close>

definition object_keys :: "'a slots \<Rightarrow> nat list" where
  "object_keys obj = sort (remdups (map fst obj))"

text \<open>\<open>AddonModQuizQuizWSData\<close>: the fields the service reads.\<close>

record quiz =
  quiz_id :: nat
  course :: nat
  coursemodule :: nat

text \<open>\<open>AddonModQuizAttemptWSData\<close>: an attempt as the site reports it.\<close>

record online_attempt =
  attempt_id :: nat
  attempt_state :: string
  layout :: "string option"

text \<open>\<open>AddonModQuizAttemptDBRecord\<close>: the attempt stored in the device.\<close>

record offline_attempt =
  off_id :: nat
  off_quizid :: nat
  off_courseid :: nat
  finished :: nat
  currentpage :: nat

text \<open>\<open>CoreQuestionQuestionParsed\<close>: a question as the site reports it.\<close>

record question =
  q_slot :: nat
  q_type :: string
  sequencecheck :: "nat option"

text \<open>An entry of \<open>AddonModQuizQuestionsWithAnswers\<close>: the stored question and its answers.\<close>

record offline_question =
  oq_state :: string
  oq_answers :: answers

text \<open>\<open>CoreQuestionAnswerDBRecord\<close>: one stored answer.\<close>

record answer_record =
  ans_slot :: nat
  ans_name :: string
  ans_value :: string

text \<open>\<open>CoreCourseModuleBasicInfo\<close>: only the identifier is read.\<close>

record module_info =
  module_id :: nat

text \<open>
  An entry of the updates of a module. A name is a JavaScript string, a sequence of
  UTF-16 code units.
\<close>

record update_entry =
  update_name :: "16 word list"

text \<open>The result of \<open>getModuleUpdates\<close>; \<open>updates\<close> may be missing.\<close>

record check_updates =
  updates :: "update_entry list option"

text \<open>\<open>AddonModQuizSyncResult\<close>.\<close>

record sync_result =
  warnings :: "string list"
  attemptFinished :: bool
  updated :: bool

text \<open>\<open>FinishSyncOptions\<close>: every field is optional.\<close>

record finish_options =
  opt_attemptId :: "nat option"
  opt_offlineAttempt :: "offline_attempt option"
  opt_onlineAttempt :: "online_attempt option"
  opt_removeAttempt :: "bool option"
  opt_updated :: "bool option"
  opt_onlineQuestions :: "question slots option"

definition no_options :: finish_options where
  "no_options = \<lparr>opt_attemptId = None, opt_offlineAttempt = None, opt_onlineAttempt = None,
     opt_removeAttempt = None, opt_updated = None, opt_onlineQuestions = None\<rparr>"

text \<open>
  A rejection: a \<open>CoreError\<close> of the service itself, whatever a called service rejects
  with, or the \<open>TypeError\<close> of reading a property of \<open>undefined\<close>.
\<close>

datatype error = CoreError string | ServiceError string | TypeError

section \<open>Calls to other services\<close>

text \<open>
  One constructor per function of another service that the sync service calls
  asynchronously or for its effect, with the arguments the service passes (the site
  identifier last). The boolean of \<open>CGetUserAttempts\<close> says whether the reading strategy
  \<open>ONLY_NETWORK\<close> is passed; the boolean of \<open>CSetStatusAfterPrefetch\<close> whether
  \<open>PREFER_CACHE\<close> is.
\<close>

datatype call =
    CSyncActivity nat string
  | CGetQuizAttempts nat string
  | CGetUserAttempts nat nat bool string
  | CGetAttemptAnswers nat string
  | CGetQuizAccessInformation nat string
  | CGetPreflightData nat "string list" nat "bool option" string
  | CGetAllQuestionsData nat nat answers "nat list" string
  | CRemoveQuestionAndAnswers nat nat "string option"
  | CPrepareSyncData question answers nat string
  | CProcessAttempt nat nat answers answers bool string
  | CLogViewAttempt nat nat answers string
  | CInvalidateAllQuizData nat nat "nat option" string
  | CRemoveAttemptAndAnswers nat string
  | CDeleteOfflineData question nat string
  | CGetModuleBasicInfoByInstance nat string
  | CGetModuleUpdates nat nat "string option"
  | CDownload nat nat
  | CSetStatusAfterPrefetch nat nat bool "string option"
  | CSetSyncTime nat string
  | CGetAllAttempts string
  | CGetQuizById nat nat string
  | CIsSyncNeeded nat "string option"
  | CSetSyncWarnings nat "string list" string
  | CTrigger nat bool "string list" string

type_synonym history = "call list"

text \<open>
  The other services. A function that answers from the state of the device or of the
  site takes the history of the calls made so far (the call being answered is its last
  element), so its answer may change as the sync proceeds. \<open>settle\<close> answers every call
  that resolves to no value: \<open>None\<close> when it resolves, \<open>Some e\<close> when it rejects.
  \<open>answered\<close> says in which order the calls of callbacks that wait at the same time
  are answered (see \<open>promise_all_callbacks\<close>).
\<close>

record env =
  getCurrentSiteId :: string
  instant :: "string \<Rightarrow> string"
  isOnline :: "history \<Rightarrow> bool"
  isBlocked :: "history \<Rightarrow> nat \<Rightarrow> string \<Rightarrow> bool"
  isAttemptFinished :: "string \<Rightarrow> bool"
  validateSequenceCheck :: "question \<Rightarrow> string option \<Rightarrow> bool"
  convertAnswersArrayToObject :: "answer_record list \<Rightarrow> answers"
  classifyAnswersInQuestions :: "answers \<Rightarrow> offline_question slots"
  extractAnswersFromQuestions :: "offline_question slots \<Rightarrow> answers"
  getPagesFromLayoutAndQuestions :: "string \<Rightarrow> offline_question slots \<Rightarrow> nat list"
  settle :: "history \<Rightarrow> error option"
  getQuizAttempts :: "history \<Rightarrow> error + offline_attempt list"
  getUserAttempts :: "history \<Rightarrow> error + online_attempt list"
  getAttemptAnswers :: "history \<Rightarrow> error + answer_record list"
  getQuizAccessInformation :: "history \<Rightarrow> error + string list"
  getPreflightData :: "history \<Rightarrow> error + answers"
  getAllQuestionsData :: "history \<Rightarrow> error + question slots"
  prepareSyncData :: "history \<Rightarrow> error + answers"
  getModuleBasicInfoByInstance :: "history \<Rightarrow> error + module_info"
  getModuleUpdates :: "history \<Rightarrow> error + check_updates option"
  getAllAttempts :: "history \<Rightarrow> error + offline_attempt list"
  getQuizById :: "history \<Rightarrow> error + quiz"
  isSyncNeeded :: "history \<Rightarrow> error + bool"
  getOngoingSync :: "history \<Rightarrow> nat \<Rightarrow> string \<Rightarrow> (error + sync_result) option"
  answered :: "history \<Rightarrow> nat list"

section \<open>Promises\<close>

text \<open>
  An asynchronous function is a function from the history (the calls made before it
  starts) to its outcome (\<open>Inl\<close> a rejection, \<open>Inr\<close> the value it resolves to) and
  the calls it makes, in order.
\<close>

type_synonym 'a promise = "history \<Rightarrow> (error + 'a) \<times> call list"

definition resolve :: "'a \<Rightarrow> 'a promise" where
  "resolve x h = (Inr x, [])"

definition reject :: "error \<Rightarrow> 'a promise" where
  "reject err h = (Inl err, [])"

text \<open>\<open>const x = await m; f x\<close>: a rejection of \<open>m\<close> ends the function.\<close>

definition await :: "'a promise \<Rightarrow> ('a \<Rightarrow> 'b promise) \<Rightarrow> 'b promise" where
  "await m f h =
     (case m h of
        (Inl err, cs) \<Rightarrow> (Inl err, cs)
      | (Inr x, cs) \<Rightarrow> (case f x (h @ cs) of (r, cs') \<Rightarrow> (r, cs @ cs')))"

text \<open>A call that resolves to a value: it is recorded, then answered.\<close>

definition request :: "call \<Rightarrow> (history \<Rightarrow> error + 'a) \<Rightarrow> 'a promise" where
  "request c answer h = (answer (h @ [c]), [c])"

text \<open>A call that resolves to no value.\<close>

definition perform :: "env \<Rightarrow> call \<Rightarrow> unit promise" where
  "perform e c h = (case settle e (h @ [c]) of None \<Rightarrow> (Inr (), [c]) | Some err \<Rightarrow> (Inl err, [c]))"

text \<open>\<open>CoreUtils.ignoreErrors(promise)\<close>: resolves to \<open>undefined\<close> when the promise rejects.\<close>

definition ignoreErrors :: "'a promise \<Rightarrow> 'a option promise" where
  "ignoreErrors m h = (case m h of (Inl err, cs) \<Rightarrow> (Inr None, cs) | (Inr x, cs) \<Rightarrow> (Inr (Some x), cs))"

text \<open>
  \<open>Promise.all\<close> over promises that are all created before the first of them is
  awaited and that make at most one call each, when they are created (the callbacks of
  \<open>validateQuestions\<close> and of "Let questions prepare the data", the promises of
  \<open>finishSync\<close>): the calls are made in the order of creation, every promise runs
  whatever the others do, and the whole rejects when one of them rejects. When several
  reject, the rejection it rejects with is that of the call answered first; here it is
  that of the promise created first. \<open>Promise.all\<close> over the callbacks of
  \<open>syncAllQuizzesFunc\<close>, which make several calls each, is \<open>promise_all_callbacks\<close>
  below.
\<close>

fun promise_all :: "'a promise list \<Rightarrow> 'a list promise" where
  "promise_all [] h = (Inr [], [])"
| "promise_all (m # ms) h =
     (case m h of (r, cs) \<Rightarrow>
        (case promise_all ms (h @ cs) of (rs, cs') \<Rightarrow>
           ((case r of
               Inl err \<Rightarrow> Inl err
             | Inr x \<Rightarrow> (case rs of Inl err \<Rightarrow> Inl err | Inr xs \<Rightarrow> Inr (x # xs))),
            cs @ cs')))"

section \<open>JavaScript values\<close>

text \<open>Truthiness of an optional number, of an optional boolean and of an optional string.\<close>

definition truthy_number :: "nat option \<Rightarrow> bool" where
  "truthy_number x = (case x of None \<Rightarrow> False | Some n \<Rightarrow> n \<noteq> 0)"

definition truthy_boolean :: "bool option \<Rightarrow> bool" where
  "truthy_boolean x = (case x of None \<Rightarrow> False | Some b \<Rightarrow> b)"

text \<open>\<open>x || y\<close> on an optional string: the empty string is falsy.\<close>

definition or_string :: "string option \<Rightarrow> string \<Rightarrow> string" where
  "or_string x y = (case x of None \<Rightarrow> y | Some s \<Rightarrow> if s = [] then y else s)"

text \<open>\<open>Array.prototype.pop\<close>: the last element, \<open>undefined\<close> on an empty array.\<close>

definition pop :: "'a list \<Rightarrow> 'a option" where
  "pop xs = (if xs = [] then None else Some (last xs))"

text \<open>The entries of an object in the order of \<open>for ... in\<close>.\<close>

definition object_entries :: "'a slots \<Rightarrow> (nat \<times> 'a) list" where
  "object_entries obj = List.map_filter (\<lambda>k. map_option (Pair k) (map_of obj k)) (object_keys obj)"

text \<open>\<open>String(n)\<close> for a natural number, and for \<open>undefined\<close>.\<close>

fun string_of_nat :: "nat \<Rightarrow> string" where
  "string_of_nat n =
     (if n < 10 then [char_of (48 + n)] else string_of_nat (n div 10) @ [char_of (48 + n mod 10)])"

definition String :: "nat option \<Rightarrow> string" where
  "String x = (case x of None \<Rightarrow> ''undefined'' | Some n \<Rightarrow> string_of_nat n)"

text \<open>
  The regular expression \<open>/^.*files$/\<close> without flags: \<open>.\<close> matches any code unit
  except the line terminators (LF, CR, U+2028, U+2029), and \<open>^\<close> and \<open>$\<close> match at
  the two ends of the string only. \<open>match_files s\<close> is whether \<open>.*files$\<close> matches
  from the start of \<open>s\<close>: either \<open>s\<close> is \<open>files\<close>, or its first code unit is
  matched by \<open>.\<close> and the rest matches.
\<close>

definition line_terminator :: "16 word \<Rightarrow> bool" where
  "line_terminator c = (c = 0x000A \<or> c = 0x000D \<or> c = 0x2028 \<or> c = 0x2029)"

definition files :: "16 word list" where
  "files = [0x66, 0x69, 0x6C, 0x65, 0x73]"

fun match_files :: "16 word list \<Rightarrow> bool" where
  "match_files [] = False"
| "match_files (c # cs) = (c # cs = files \<or> (\<not> line_terminator c \<and> match_files cs))"

section \<open>The service\<close>

subsection \<open>prefetchAfterUpdateQuiz\<close>

definition prefetchAfterUpdateQuiz ::
  "env \<Rightarrow> module_info \<Rightarrow> quiz \<Rightarrow> nat \<Rightarrow> string option \<Rightarrow> unit promise" where
  "prefetchAfterUpdateQuiz e module quiz courseId siteId =
     await (request (CGetModuleUpdates (module_id module) courseId siteId) (getModuleUpdates e))
       (\<lambda>result.
          let entries = (case result of None \<Rightarrow> [] | Some r \<Rightarrow>
                           (case updates r of None \<Rightarrow> [] | Some us \<Rightarrow> us));
              shouldDownload =
                (entries \<noteq> [] \<and> find (\<lambda>entry. match_files (update_name entry)) entries = None)
          in await (if shouldDownload then perform e (CDownload (module_id module) courseId)
                    else resolve ())
               (\<lambda>_. perform e
                  (CSetStatusAfterPrefetch (quiz_id quiz) (module_id module) shouldDownload siteId)))"

subsection \<open>finishSync\<close>

text \<open>\<open>try { await m } catch { }\<close>.\<close>

definition try_catch_ignore :: "unit promise \<Rightarrow> unit promise" where
  "try_catch_ignore m = await (ignoreErrors m) (\<lambda>_. resolve ())"

definition finishSync ::
  "env \<Rightarrow> string \<Rightarrow> quiz \<Rightarrow> nat \<Rightarrow> string list \<Rightarrow> finish_options \<Rightarrow> sync_result promise" where
  "finishSync e siteId quiz courseId warns options =
     await (ignoreErrors (perform e
              (CInvalidateAllQuizData (quiz_id quiz) courseId (opt_attemptId options) siteId)))
       (\<lambda>_.
     await (if truthy_boolean (opt_removeAttempt options) \<and> truthy_number (opt_attemptId options)
            then
              (case opt_attemptId options of
                 None \<Rightarrow> resolve ()
               | Some attemptId \<Rightarrow>
                   await (promise_all
                     (perform e (CRemoveAttemptAndAnswers attemptId siteId) #
                      (case opt_onlineQuestions options of
                         None \<Rightarrow> []
                       | Some onlineQuestions \<Rightarrow>
                           map (\<lambda>(slot, q). perform e (CDeleteOfflineData q (coursemodule quiz) siteId))
                             (object_entries onlineQuestions))))
                     (\<lambda>_. resolve ()))
            else resolve ())
       (\<lambda>_.
     await (if truthy_boolean (opt_updated options)
            then try_catch_ignore
              (await (request (CGetModuleBasicInfoByInstance (quiz_id quiz) siteId)
                        (getModuleBasicInfoByInstance e))
                 (\<lambda>module. prefetchAfterUpdateQuiz e module quiz courseId (Some siteId)))
            else resolve ())
       (\<lambda>_.
     await (ignoreErrors (perform e (CSetSyncTime (quiz_id quiz) siteId)))
       (\<lambda>_.
     await (case opt_onlineAttempt options of
              None \<Rightarrow> resolve False
            | Some onlineAttempt \<Rightarrow>
                if \<not> isAttemptFinished e (attempt_state onlineAttempt)
                then
                  await (request (CGetUserAttempts (quiz_id quiz) (coursemodule quiz) False siteId)
                           (getUserAttempts e))
                    (\<lambda>attempts.
                       resolve
                         (case find (\<lambda>a. attempt_id a = attempt_id onlineAttempt) attempts of
                            None \<Rightarrow> False
                          | Some attempt \<Rightarrow> isAttemptFinished e (attempt_state attempt)))
                else resolve False)
       (\<lambda>finishedNow.
          resolve \<lparr>warnings = warns, attemptFinished = finishedNow,
                   updated = (truthy_boolean (opt_updated options) \<or>
                              truthy_boolean (opt_removeAttempt options))\<rparr>)))))"

subsection \<open>validateQuestions\<close>

text \<open>
  The callbacks passed to \<open>Promise.all\<close> change two variables they share, the flag
  \<open>discardedData\<close> and the object \<open>offlineQuestions\<close>. A callback resolves to the
  change it makes; the changes are applied once all the callbacks have resolved (when
  one rejects the function rejects and the two variables are not read again). Each
  callback changes the entry of its own slot only.
\<close>

type_synonym validation = "bool \<times> offline_question slots"

text \<open>\<open>discardedData = true; delete offlineQuestions[slot]\<close>.\<close>

definition discard_slot :: "nat \<Rightarrow> validation \<Rightarrow> validation" where
  "discard_slot slot v = (True, AList.delete slot (snd v))"

text \<open>\<open>offlineQuestion.answers[':sequencecheck'] = token\<close>.\<close>

definition set_sequencecheck :: "string \<Rightarrow> offline_question \<Rightarrow> offline_question" where
  "set_sequencecheck token q = q\<lparr>oq_answers := AList.update '':sequencecheck'' token (oq_answers q)\<rparr>"

definition accept_slot :: "nat \<Rightarrow> string \<Rightarrow> validation \<Rightarrow> validation" where
  "accept_slot slot token v = (fst v, AList.map_entry slot (set_sequencecheck token) (snd v))"

definition validateQuestion ::
  "env \<Rightarrow> nat \<Rightarrow> question slots \<Rightarrow> offline_question slots \<Rightarrow> string option \<Rightarrow> nat
     \<Rightarrow> (validation \<Rightarrow> validation) promise" where
  "validateQuestion e attemptId onlineQuestions offlineQuestions siteId slot =
     (case map_of offlineQuestions slot of
        None \<Rightarrow> reject TypeError
      | Some offlineQuestion \<Rightarrow>
          let offlineSequenceCheck = map_of (oq_answers offlineQuestion) '':sequencecheck'' in
          (case map_of onlineQuestions slot of
             Some onlineQuestion \<Rightarrow>
               if \<not> validateSequenceCheck e onlineQuestion offlineSequenceCheck
               then await (perform e (CRemoveQuestionAndAnswers attemptId slot siteId))
                      (\<lambda>_. resolve (discard_slot slot))
               else resolve (accept_slot slot (String (sequencecheck onlineQuestion)))
           | None \<Rightarrow>
               await (perform e (CRemoveQuestionAndAnswers attemptId slot siteId))
                 (\<lambda>_. resolve (discard_slot slot))))"

definition validateQuestions ::
  "env \<Rightarrow> nat \<Rightarrow> question slots \<Rightarrow> offline_question slots \<Rightarrow> string option
     \<Rightarrow> validation promise" where
  "validateQuestions e attemptId onlineQuestions offlineQuestions siteId =
     await (promise_all
              (map (validateQuestion e attemptId onlineQuestions offlineQuestions siteId)
                 (object_keys offlineQuestions)))
       (\<lambda>changes. resolve (fold (\<lambda>change v. change v) changes (False, offlineQuestions)))"

subsection \<open>performSyncQuiz\<close>

text \<open>
  The callback of "Let questions prepare the data": the delegate rewrites the answers of
  the slot in place; the callback resolves to that change of \<open>offlineQuestions\<close>.
\<close>

definition set_answers :: "nat \<Rightarrow> answers \<Rightarrow> offline_question slots \<Rightarrow> offline_question slots" where
  "set_answers slot a obj = AList.map_entry slot (\<lambda>q. q\<lparr>oq_answers := a\<rparr>) obj"

definition prepareQuestion ::
  "env \<Rightarrow> quiz \<Rightarrow> string \<Rightarrow> question slots \<Rightarrow> offline_question slots \<Rightarrow> nat
     \<Rightarrow> (offline_question slots \<Rightarrow> offline_question slots) promise" where
  "prepareQuestion e quiz siteId onlineQuestions offlineQuestions slot =
     (case (map_of onlineQuestions slot, map_of offlineQuestions slot) of
        (Some onlineQuestion, Some offlineQuestion) \<Rightarrow>
          await (request (CPrepareSyncData onlineQuestion (oq_answers offlineQuestion)
                            (coursemodule quiz) siteId) (prepareSyncData e))
            (\<lambda>prepared. resolve (set_answers slot prepared))
      | _ \<Rightarrow> reject TypeError)"

text \<open>
  \<open>performSyncQuiz\<close> is given in three parts. This is the last one, from "Let questions
  prepare the data to send" on: the questions were validated.
\<close>

definition performSyncQuiz_submit ::
  "env \<Rightarrow> quiz \<Rightarrow> string \<Rightarrow> offline_attempt \<Rightarrow> online_attempt \<Rightarrow> nat option \<Rightarrow> answers
     \<Rightarrow> question slots \<Rightarrow> bool \<Rightarrow> offline_question slots \<Rightarrow> sync_result promise" where
  "performSyncQuiz_submit e quiz siteId offlineAttempt onlineAttempt lastAttemptId preflightData
     onlineQuestions discardedData validQuestions =
      await (promise_all
               (map (prepareQuestion e quiz siteId onlineQuestions validQuestions)
                  (object_keys validQuestions)))
        (\<lambda>changes.
      let preparedQuestions = fold (\<lambda>change obj. change obj) changes validQuestions;
          answers = extractAnswersFromQuestions e preparedQuestions;
          finish = (finished offlineAttempt \<noteq> 0 \<and> \<not> discardedData);
          warns = (if discardedData
                   then (if finished offlineAttempt \<noteq> 0
                         then [instant e ''addon.mod_quiz.warningdatadiscardedfromfinished'']
                         else [instant e ''addon.mod_quiz.warningdatadiscarded''])
                   else [])
      in
      await (perform e (CProcessAttempt (quiz_id quiz) (attempt_id onlineAttempt) answers
                          preflightData finish siteId))
        (\<lambda>_.
      await (if \<not> finish
             then ignoreErrors (perform e (CLogViewAttempt (attempt_id onlineAttempt)
                                            (currentpage offlineAttempt) preflightData siteId))
             else resolve None)
        (\<lambda>_.
      finishSync e siteId quiz (course quiz) warns
        (no_options\<lparr>opt_attemptId := lastAttemptId,
                     opt_offlineAttempt := Some offlineAttempt,
                     opt_onlineAttempt := Some onlineAttempt,
                     opt_removeAttempt := Some True,
                     opt_updated := Some True,
                     opt_onlineQuestions := Some onlineQuestions\<rparr>))))"

text \<open>
  The middle part, from "We're going to need preflightData" on: the online attempt is
  open and the offline attempt has answers, classified in \<open>offlineQuestions\<close>.
\<close>

definition performSyncQuiz_send ::
  "env \<Rightarrow> quiz \<Rightarrow> bool option \<Rightarrow> string \<Rightarrow> offline_attempt \<Rightarrow> online_attempt \<Rightarrow> nat option
     \<Rightarrow> offline_question slots \<Rightarrow> sync_result promise" where
  "performSyncQuiz_send e quiz askPreflight siteId offlineAttempt onlineAttempt lastAttemptId
     offlineQuestions =
      await (request (CGetQuizAccessInformation (quiz_id quiz) siteId) (getQuizAccessInformation e))
        (\<lambda>info.
      await (request (CGetPreflightData (quiz_id quiz) info (attempt_id onlineAttempt) askPreflight
                        siteId) (getPreflightData e))
        (\<lambda>preflightData.
      await (request (CGetAllQuestionsData (quiz_id quiz) (attempt_id onlineAttempt) preflightData
                        (getPagesFromLayoutAndQuestions e
                           (or_string (layout onlineAttempt) []) offlineQuestions)
                        siteId) (getAllQuestionsData e))
        (\<lambda>onlineQuestions.
      await (validateQuestions e (attempt_id onlineAttempt) onlineQuestions offlineQuestions
               (Some siteId))
        (\<lambda>(discardedData, validQuestions).
      performSyncQuiz_submit e quiz siteId offlineAttempt onlineAttempt lastAttemptId
        preflightData onlineQuestions discardedData validQuestions))))"

text \<open>
  The first part, and the function. \<open>found\<close> is the online attempt of the offline
  attempt's identifier; \<open>onlineAttempt\<close> is that attempt once it is known to be open.
\<close>

definition performSyncQuiz ::
  "env \<Rightarrow> quiz \<Rightarrow> bool option \<Rightarrow> string option \<Rightarrow> sync_result promise" where
  "performSyncQuiz e quiz askPreflight siteId0 =
     (let siteId = or_string siteId0 (getCurrentSiteId e);
          courseId = course quiz
      in
      await (ignoreErrors (perform e (CSyncActivity (quiz_id quiz) siteId)))
        (\<lambda>_.
      await (request (CGetQuizAttempts (quiz_id quiz) siteId) (getQuizAttempts e))
        (\<lambda>offlineAttempts.
      case pop offlineAttempts of
        None \<Rightarrow> finishSync e siteId quiz courseId [] no_options
      | Some offlineAttempt \<Rightarrow>
      (\<lambda>h. if \<not> isOnline e h then reject (CoreError (instant e ''core.cannotconnect'')) h else
      await (request (CGetUserAttempts (quiz_id quiz) (coursemodule quiz) True siteId)
               (getUserAttempts e))
        (\<lambda>onlineAttempts.
      let lastAttemptId = (if onlineAttempts \<noteq> [] then Some (attempt_id (last onlineAttempts))
                           else None);
          found = find (\<lambda>attempt. attempt_id attempt = off_id offlineAttempt) onlineAttempts
      in
      case (case found of
              None \<Rightarrow> None
            | Some a \<Rightarrow> if isAttemptFinished e (attempt_state a) then None else Some a) of
        None \<Rightarrow>
          finishSync e siteId quiz courseId [instant e ''addon.mod_quiz.warningattemptfinished'']
            (no_options\<lparr>opt_attemptId := Some (off_id offlineAttempt),
                         opt_offlineAttempt := Some offlineAttempt,
                         opt_onlineAttempt := found,
                         opt_removeAttempt := Some True\<rparr>)
      | Some onlineAttempt \<Rightarrow>
      await (request (CGetAttemptAnswers (off_id offlineAttempt) siteId) (getAttemptAnswers e))
        (\<lambda>answersList.
      if answersList = [] then
        finishSync e siteId quiz courseId []
          (no_options\<lparr>opt_attemptId := lastAttemptId,
                       opt_offlineAttempt := Some offlineAttempt,
                       opt_onlineAttempt := Some onlineAttempt,
                       opt_removeAttempt := Some True\<rparr>)
      else
        performSyncQuiz_send e quiz askPreflight siteId offlineAttempt onlineAttempt lastAttemptId
          (classifyAnswersInQuestions e (convertAnswersArrayToObject e answersList)))) h))))"

subsection \<open>syncQuiz, syncQuizIfNeeded, syncAllQuizzesFunc\<close>

text \<open>
  \<open>syncQuiz\<close> as its caller awaits it. \<open>getOngoingSync\<close> answers with the outcome of the
  sync in flight for the quiz and the site, when there is one; \<open>addOngoingSync\<close> returns
  the promise it is given.
\<close>

definition syncQuiz ::
  "env \<Rightarrow> quiz \<Rightarrow> bool option \<Rightarrow> string option \<Rightarrow> sync_result promise" where
  "syncQuiz e quiz askPreflight siteId0 h =
     (let siteId = or_string siteId0 (getCurrentSiteId e) in
      case getOngoingSync e h (quiz_id quiz) siteId of
        Some outcome \<Rightarrow> (outcome, [])
      | None \<Rightarrow>
          if isBlocked e h (quiz_id quiz) siteId
          then reject (CoreError (instant e ''core.errorsyncblocked'')) h
          else performSyncQuiz e quiz askPreflight (Some siteId) h)"

definition syncQuizIfNeeded ::
  "env \<Rightarrow> quiz \<Rightarrow> bool option \<Rightarrow> string option \<Rightarrow> sync_result option promise" where
  "syncQuizIfNeeded e quiz askPreflight siteId =
     await (request (CIsSyncNeeded (quiz_id quiz) siteId) (isSyncNeeded e))
       (\<lambda>needed.
          if needed then await (syncQuiz e quiz askPreflight siteId) (\<lambda>r. resolve (Some r))
          else resolve None)"

text \<open>\<open>CoreEvents.trigger\<close>: recorded, never rejects.\<close>

definition trigger :: "call \<Rightarrow> unit promise" where
  "trigger c h = (Inr (), [c])"

text \<open>
  \<open>force ? this.syncQuiz(quiz, false, siteId) : this.syncQuizIfNeeded(quiz, false, siteId)\<close>:
  the data the callback of \<open>syncAllQuizzesFunc\<close> awaits.
\<close>

definition syncQuizForcedOrIfNeeded ::
  "env \<Rightarrow> bool \<Rightarrow> string \<Rightarrow> quiz \<Rightarrow> sync_result option promise" where
  "syncQuizForcedOrIfNeeded e force siteId quiz =
     (if force
      then await (syncQuiz e quiz (Some False) (Some siteId)) (\<lambda>r. resolve (Some r))
      else syncQuizIfNeeded e quiz (Some False) (Some siteId))"

text \<open>The callback of \<open>syncAllQuizzesFunc\<close> for an attempt whose quiz was not treated yet.\<close>

definition syncAttempt :: "env \<Rightarrow> bool \<Rightarrow> string \<Rightarrow> offline_attempt \<Rightarrow> unit promise" where
  "syncAttempt e force siteId attempt h =
     (if isBlocked e h (off_quizid attempt) siteId then resolve () h
      else
        await (request (CGetQuizById (off_courseid attempt) (off_quizid attempt) siteId)
                 (getQuizById e))
          (\<lambda>quiz.
        await (syncQuizForcedOrIfNeeded e force siteId quiz)
          (\<lambda>data.
        await (case data of
                 None \<Rightarrow> resolve ()
               | Some d \<Rightarrow>
                   if warnings d \<noteq> []
                   then perform e (CSetSyncWarnings (quiz_id quiz) (warnings d) siteId)
                   else resolve ())
          (\<lambda>_.
        case data of
          None \<Rightarrow> resolve ()
        | Some d \<Rightarrow> trigger (CTrigger (quiz_id quiz) (attemptFinished d) (warnings d) siteId))))
        h)"

text \<open>
  The callbacks of \<open>attempts.map\<close>, in the order of the attempts; \<open>quizIds\<close> holds the
  quizzes of the attempts before.
\<close>

fun syncCallbacks ::
  "env \<Rightarrow> bool \<Rightarrow> string \<Rightarrow> nat list \<Rightarrow> offline_attempt list \<Rightarrow> unit promise list" where
  "syncCallbacks e force siteId quizIds [] = []"
| "syncCallbacks e force siteId quizIds (attempt # attempts) =
     (if off_quizid attempt \<in> set quizIds
      then resolve () # syncCallbacks e force siteId quizIds attempts
      else syncAttempt e force siteId attempt #
           syncCallbacks e force siteId (off_quizid attempt # quizIds) attempts)"

text \<open>
  \<open>Promise.all\<close> over callbacks that make several calls. A callback that was started
  and has not settled is a task: its number (its position among the callbacks), the outcome
  it settles with, and the calls it has still to make.
\<close>

type_synonym task = "nat \<times> (error + unit) \<times> call list"

text \<open>What was done in a stretch of time: the tasks left, the calls made, the outcomes settled.\<close>

type_synonym progress = "task list \<times> call list \<times> (error + unit) list"

text \<open>
  The call a task waits for is answered and the task is resumed: it makes its next call,
  or it has none left and settles.
\<close>

fun resume :: "nat \<Rightarrow> task list \<Rightarrow> progress" where
  "resume i [] = ([], [], [])"
| "resume i ((j, outcome, todo) # tasks) =
     (if i = j
      then (case todo of
              [] \<Rightarrow> (tasks, [], [outcome])
            | c # cs \<Rightarrow> ((j, outcome, cs) # tasks, [c], []))
      else (case resume i tasks of
              (tasks', cs, outcomes) \<Rightarrow> ((j, outcome, todo) # tasks', cs, outcomes)))"

fun resume_each :: "nat list \<Rightarrow> task list \<Rightarrow> progress" where
  "resume_each [] tasks = (tasks, [], [])"
| "resume_each (i # turns) tasks =
     (case resume i tasks of
        (tasks', cs, outcomes) \<Rightarrow>
          (case resume_each turns tasks' of
             (tasks'', cs', outcomes') \<Rightarrow> (tasks'', cs @ cs', outcomes @ outcomes')))"

text \<open>Every task is resumed once, in the order of the tasks.\<close>

fun resume_all :: "task list \<Rightarrow> progress" where
  "resume_all [] = ([], [], [])"
| "resume_all ((j, outcome, []) # tasks) =
     (case resume_all tasks of (tasks', cs, outcomes) \<Rightarrow> (tasks', cs, outcome # outcomes))"
| "resume_all ((j, outcome, c # todo) # tasks) =
     (case resume_all tasks of
        (tasks', cs, outcomes) \<Rightarrow> ((j, outcome, todo) # tasks', c # cs, outcomes))"

text \<open>The tasks are resumed in turn until all of them have settled.\<close>

function in_turn :: "task list \<Rightarrow> call list \<times> (error + unit) list" where
  "in_turn tasks =
     (if tasks = [] then ([], [])
      else (case resume_all tasks of
              (tasks', cs, outcomes) \<Rightarrow>
                (case in_turn tasks' of (cs', outcomes') \<Rightarrow> (cs @ cs', outcomes @ outcomes'))))"
  by pat_completeness auto

termination
proof (relation "measure (\<lambda>tasks. sum_list (map (\<lambda>task. Suc (length (snd (snd task)))) tasks))")
  fix tasks tasks' :: "task list" and rest
  assume "tasks \<noteq> []" and "(tasks', rest) = resume_all tasks"
  have "sum_list (map (\<lambda>task. Suc (length (snd (snd task)))) (fst (resume_all ts))) + length ts
      = sum_list (map (\<lambda>task. Suc (length (snd (snd task)))) ts)" for ts :: "task list"
    by (induction ts rule: resume_all.induct) (auto split: prod.splits)
  from this [of tasks] \<open>tasks \<noteq> []\<close> \<open>(tasks', rest) = resume_all tasks\<close> [symmetric]
  show "(tasks', tasks)
      \<in> measure (\<lambda>tasks. sum_list (map (\<lambda>task. Suc (length (snd (snd task)))) tasks))"
    by (cases tasks) simp_all
qed simp

declare in_turn.simps [simp del]

text \<open>The first rejection among outcomes, in the order in which they were settled.\<close>

fun first_rejected :: "(error + 'a) list \<Rightarrow> error option" where
  "first_rejected [] = None"
| "first_rejected (Inl err # outcomes) = Some err"
| "first_rejected (Inr x # outcomes) = first_rejected outcomes"

text \<open>
  The callbacks are started in their order, each running up to its first call or, when
  it makes none, to its end. From then on a callback is resumed when the call it waits for
  is answered. The order of the answers is not decided by the service: the calls of the
  callbacks named by \<open>turns\<close> are answered first, in that order, and then the callbacks
  are resumed in turn until all of them have settled. \<open>Promise.all\<close> rejects with the
  rejection of the callback that rejects first in time, and resolves when all the
  callbacks have resolved; a rejection stops no callback. What a service answers to a
  callback depends on the calls made before the callbacks were started and on the calls
  of that callback, not on the calls of the other callbacks.
\<close>

definition promise_all_callbacks :: "nat list \<Rightarrow> unit promise list \<Rightarrow> unit list promise" where
  "promise_all_callbacks turns callbacks h =
     (case resume_all (map (\<lambda>(i, callback). (i, callback h)) (enumerate 0 callbacks)) of
        (started, cs, outcomes) \<Rightarrow>
          (case resume_each turns started of
             (waiting, cs', outcomes') \<Rightarrow>
               (case in_turn waiting of
                  (cs'', outcomes'') \<Rightarrow>
                    ((case first_rejected (outcomes @ outcomes' @ outcomes'') of
                        Some err \<Rightarrow> Inl err
                      | None \<Rightarrow> Inr (map (\<lambda>_. ()) callbacks)),
                     cs @ cs' @ cs''))))"

definition syncAllQuizzesFunc :: "env \<Rightarrow> bool \<Rightarrow> string \<Rightarrow> unit promise" where
  "syncAllQuizzesFunc e force siteId =
     await (request (CGetAllAttempts siteId) (getAllAttempts e))
       (\<lambda>attempts.
          await (\<lambda>h. promise_all_callbacks (answered e h)
                        (syncCallbacks e force siteId [] attempts) h)
            (\<lambda>_. resolve ()))"

section \<open>The syncs in flight\<close>

text \<open>
  Modelled from the spec: \<open>getOngoingSync\<close> and \<open>addOngoingSync\<close> belong to the base
  class of the service, which is not among the sources. The spec describes them as the
  in-flight registry, \<open>get(resourceId, site) -> Promise?\<close> and
  \<open>register(resourceId, promise, site)\<close>: the operation "registers itself as the
  in-flight operation for the pair", and a caller that finds a sync in flight "receives
  the same in-flight result". The registry maps a quiz and a site to the promise in
  flight, a promise being given by the outcome it settles with, which is what a caller
  that awaits it receives.
\<close>

type_synonym in_flight = "((nat \<times> string) \<times> (error + sync_result)) list"

definition getOngoingSyncIn :: "in_flight \<Rightarrow> nat \<Rightarrow> string \<Rightarrow> (error + sync_result) option" where
  "getOngoingSyncIn syncs quizId siteId = map_of syncs (quizId, siteId)"

definition addOngoingSyncTo ::
  "nat \<Rightarrow> error + sync_result \<Rightarrow> string \<Rightarrow> in_flight \<Rightarrow> in_flight" where
  "addOngoingSyncTo quizId outcome siteId syncs = ((quizId, siteId), outcome) # syncs"

text \<open>The other services, the syncs in flight being those of the registry.\<close>

definition with_syncs :: "in_flight \<Rightarrow> env \<Rightarrow> env" where
  "with_syncs syncs e = e\<lparr>getOngoingSync := (\<lambda>h. getOngoingSyncIn syncs)\<rparr>"

text \<open>
  The registry once \<open>syncQuiz\<close> has returned: the call registers the promise of the
  \<open>performSyncQuiz\<close> it starts, and registers nothing when it returns the promise in
  flight or throws. \<open>JavaScript\<close> runs one call at a time, so a second call made before
  that promise settles finds the registry as the first call left it.
\<close>

definition syncQuiz_syncs ::
  "env \<Rightarrow> quiz \<Rightarrow> bool option \<Rightarrow> string option \<Rightarrow> history \<Rightarrow> in_flight \<Rightarrow> in_flight" where
  "syncQuiz_syncs e quiz askPreflight siteId0 h syncs =
     (let siteId = or_string siteId0 (getCurrentSiteId e) in
      case getOngoingSyncIn syncs (quiz_id quiz) siteId of
        Some currentSyncPromise \<Rightarrow> syncs
      | None \<Rightarrow>
          if isBlocked e h (quiz_id quiz) siteId then syncs
          else addOngoingSyncTo (quiz_id quiz)
                 (fst (performSyncQuiz e quiz askPreflight (Some siteId) h)) siteId syncs)"

section \<open>Vocabulary of the properties\<close>

text \<open>
  The rule of \<open>validateQuestions\<close> for one slot: the slot is kept when the site has a
  question for it and the delegate accepts the stored sequence check for that question.
\<close>

definition accepted :: "env \<Rightarrow> question slots \<Rightarrow> offline_question slots \<Rightarrow> nat \<Rightarrow> bool" where
  "accepted e onlineQuestions offlineQuestions slot =
     (case (map_of onlineQuestions slot, map_of offlineQuestions slot) of
        (Some onlineQuestion, Some offlineQuestion) \<Rightarrow>
          validateSequenceCheck e onlineQuestion
            (map_of (oq_answers offlineQuestion) '':sequencecheck'')
      | _ \<Rightarrow> False)"

text \<open>\<open>String(onlineQuestion.sequencecheck)\<close> for the question of a slot.\<close>

definition online_token :: "question slots \<Rightarrow> nat \<Rightarrow> string" where
  "online_token onlineQuestions slot =
     String (case map_of onlineQuestions slot of None \<Rightarrow> None | Some q \<Rightarrow> sequencecheck q)"

text \<open>The change the callback of a slot makes when the store removes what it is asked to.\<close>

definition change_of ::
  "env \<Rightarrow> question slots \<Rightarrow> offline_question slots \<Rightarrow> nat \<Rightarrow> validation \<Rightarrow> validation" where
  "change_of e onlineQuestions offlineQuestions slot =
     (if accepted e onlineQuestions offlineQuestions slot
      then accept_slot slot (online_token onlineQuestions slot)
      else discard_slot slot)"

text \<open>
  The first rejection among calls that resolve to no value, made one after the other
  from the history \<open>h\<close>; \<open>None\<close> when they all resolve.
\<close>

fun first_rejection :: "env \<Rightarrow> history \<Rightarrow> call list \<Rightarrow> error option" where
  "first_rejection e h [] = None"
| "first_rejection e h (c # cs) =
     (case settle e (h @ [c]) of
        Some err \<Rightarrow> Some err
      | None \<Rightarrow> first_rejection e (h @ [c]) cs)"

text \<open>\<open>only_calls P m\<close>: every call the promise makes satisfies \<open>P\<close>.\<close>

definition only_calls :: "(call \<Rightarrow> bool) \<Rightarrow> 'a promise \<Rightarrow> bool" where
  "only_calls P m = (\<forall>h. \<forall>c \<in> set (snd (m h)). P c)"

text \<open>\<open>appended pre run\<close>: the calls \<open>pre\<close> were made before the run.\<close>

definition appended :: "call list \<Rightarrow> (error + 'a) \<times> call list \<Rightarrow> (error + 'a) \<times> call list" where
  "appended pre run = (fst run, pre @ snd run)"

text \<open>Kinds of calls.\<close>

definition is_slot_removal :: "call \<Rightarrow> bool" where
  "is_slot_removal c = (case c of CRemoveQuestionAndAnswers _ _ _ \<Rightarrow> True | _ \<Rightarrow> False)"

definition is_submission :: "call \<Rightarrow> bool" where
  "is_submission c = (case c of CProcessAttempt _ _ _ _ _ _ \<Rightarrow> True | _ \<Rightarrow> False)"

definition finish_flag :: "call \<Rightarrow> bool" where
  "finish_flag c = (case c of CProcessAttempt _ _ _ _ fin _ \<Rightarrow> fin | _ \<Rightarrow> False)"

text \<open>The calls \<open>prefetchAfterUpdateQuiz\<close> can make.\<close>

definition prefetch_call :: "module_info \<Rightarrow> quiz \<Rightarrow> nat \<Rightarrow> string option \<Rightarrow> call \<Rightarrow> bool" where
  "prefetch_call module quiz courseId siteId c =
     (c = CGetModuleUpdates (module_id module) courseId siteId \<or>
      c = CDownload (module_id module) courseId \<or>
      (\<exists>b. c = CSetStatusAfterPrefetch (quiz_id quiz) (module_id module) b siteId))"

text \<open>
  The calls \<open>finishSync\<close> can make when \<open>attemptId\<close> is the identifier in its
  options: the store is asked to remove that attempt only.
\<close>

definition finish_call :: "string \<Rightarrow> quiz \<Rightarrow> nat \<Rightarrow> nat option \<Rightarrow> call \<Rightarrow> bool" where
  "finish_call siteId quiz courseId attemptId c =
     (c = CInvalidateAllQuizData (quiz_id quiz) courseId attemptId siteId \<or>
      (\<exists>x. attemptId = Some x \<and> x \<noteq> 0 \<and> c = CRemoveAttemptAndAnswers x siteId) \<or>
      (\<exists>q. c = CDeleteOfflineData q (coursemodule quiz) siteId) \<or>
      c = CGetModuleBasicInfoByInstance (quiz_id quiz) siteId \<or>
      (\<exists>module. prefetch_call module quiz courseId (Some siteId) c) \<or>
      c = CSetSyncTime (quiz_id quiz) siteId \<or>
      c = CGetUserAttempts (quiz_id quiz) (coursemodule quiz) False siteId)"

text \<open>The calls the last part of \<open>performSyncQuiz\<close> can make, and those of the middle part.\<close>

definition submit_call ::
  "quiz \<Rightarrow> string \<Rightarrow> offline_attempt \<Rightarrow> online_attempt \<Rightarrow> nat option \<Rightarrow> answers \<Rightarrow> bool \<Rightarrow> call \<Rightarrow> bool" where
  "submit_call quiz siteId offlineAttempt onlineAttempt lastAttemptId preflightData discardedData c =
     ((\<exists>q a. c = CPrepareSyncData q a (coursemodule quiz) siteId) \<or>
      (\<exists>a. c = CProcessAttempt (quiz_id quiz) (attempt_id onlineAttempt) a preflightData
                 (finished offlineAttempt \<noteq> 0 \<and> \<not> discardedData) siteId) \<or>
      c = CLogViewAttempt (attempt_id onlineAttempt) (currentpage offlineAttempt) preflightData siteId \<or>
      finish_call siteId quiz (course quiz) lastAttemptId c)"

definition send_call :: "quiz \<Rightarrow> string \<Rightarrow> nat option \<Rightarrow> call \<Rightarrow> bool" where
  "send_call quiz siteId lastAttemptId c =
     ((\<exists>x. c = CGetQuizAccessInformation x siteId) \<or>
      (\<exists>q i a b. c = CGetPreflightData q i a b siteId) \<or>
      (\<exists>q a pf pages. c = CGetAllQuestionsData q a pf pages siteId) \<or>
      (\<exists>a slot. c = CRemoveQuestionAndAnswers a slot (Some siteId)) \<or>
      (\<exists>q a. c = CPrepareSyncData q a (coursemodule quiz) siteId) \<or>
      (\<exists>q a ans pf fin. c = CProcessAttempt q a ans pf fin siteId) \<or>
      (\<exists>a page pf. c = CLogViewAttempt a page pf siteId) \<or>
      finish_call siteId quiz (course quiz) lastAttemptId c)"

text \<open>The call is not the event \<open>AUTO_SYNCED\<close>.\<close>

definition no_event :: "call \<Rightarrow> bool" where
  "no_event c = (\<forall>q f w s. c \<noteq> CTrigger q f w s)"



text \<open>The check of the updates of a module, and the download of a module.\<close>

definition update_call :: "call \<Rightarrow> bool" where
  "update_call c = (case c of CGetModuleUpdates _ _ _ \<Rightarrow> True | CDownload _ _ \<Rightarrow> True | _ \<Rightarrow> False)"



text \<open>
  The calls \<open>finishSync\<close> makes first when it is to remove the attempt \<open>attemptId\<close>:
  the invalidation of the cached data and, the identifier being truthy, the removal.
\<close>

definition finalization :: "string \<Rightarrow> quiz \<Rightarrow> nat option \<Rightarrow> call list" where
  "finalization siteId quiz attemptId =
     CInvalidateAllQuizData (quiz_id quiz) (course quiz) attemptId siteId #
     (case attemptId of
        None \<Rightarrow> []
      | Some x \<Rightarrow> if x \<noteq> 0 then [CRemoveAttemptAndAnswers x siteId] else [])"

text \<open>
  \<open>accepted_then e req h cs\<close>: in the calls \<open>cs\<close>, made from the history \<open>h\<close>,
  every submission that resolves is followed by the calls \<open>req\<close>. \<open>finalizing\<close>: so
  it is in the calls of a promise.
\<close>

definition accepted_then :: "env \<Rightarrow> call list \<Rightarrow> history \<Rightarrow> call list \<Rightarrow> bool" where
  "accepted_then e req h cs =
     (\<forall>pre x post. cs = pre @ x # post \<and> is_submission x \<and> settle e (h @ pre @ [x]) = None
        \<longrightarrow> set req \<subseteq> set post)"

definition finalizing :: "env \<Rightarrow> call list \<Rightarrow> 'a promise \<Rightarrow> bool" where
  "finalizing e req p = (\<forall>h. accepted_then e req h (snd (p h)))"

text \<open>The calls that tasks have still to make, and the outcomes they will settle with.\<close>

definition left_to_call :: "task list \<Rightarrow> call set" where
  "left_to_call tasks = (\<Union>task \<in> set tasks. set (snd (snd task)))"

definition unsettled :: "task list \<Rightarrow> (error + unit) set" where
  "unsettled tasks = (\<lambda>task. fst (snd task)) ` set tasks"

text \<open>
  The attempts \<open>syncAllQuizzesFunc\<close> treats: an attempt that is the first of its quiz
  among the listed attempts (the callbacks of the others return at once).
\<close>

definition treated :: "offline_attempt list \<Rightarrow> offline_attempt \<Rightarrow> bool" where
  "treated attempts attempt =
     (find (\<lambda>a. off_quizid a = off_quizid attempt) attempts = Some attempt)"

section \<open>An example site\<close>

text \<open>
  A quiz with one stored attempt, 21, marked finished, whose only stored answers are
  those of slot 5 with sequence check 3. The site has the attempts 20 (finished) and 21
  (open until a submission finishes it), and a question in slot 5 with sequence check 3.
  The delegate compares the stored sequence check, read as a number (leading zeros do not
  count), with that of the question. Every call resolves.
\<close>

definition quiz7 :: quiz where
  "quiz7 = \<lparr>quiz_id = 7, course = 3, coursemodule = 11\<rparr>"

definition stored21 :: offline_attempt where
  "stored21 = \<lparr>off_id = 21, off_quizid = 7, off_courseid = 3, finished = 1, currentpage = 2\<rparr>"

definition submitted_finish :: "history \<Rightarrow> bool" where
  "submitted_finish h =
     list_ex (\<lambda>c. case c of CProcessAttempt _ _ _ _ fin _ \<Rightarrow> fin | _ \<Rightarrow> False) h"

definition site_attempts :: "history \<Rightarrow> online_attempt list" where
  "site_attempts h =
     [\<lparr>attempt_id = 20, attempt_state = ''finished'', layout = None\<rparr>,
      \<lparr>attempt_id = 21,
        attempt_state = (if submitted_finish h then ''finished'' else ''inprogress''),
        layout = Some ''5,0''\<rparr>]"

definition question5 :: "nat \<Rightarrow> question" where
  "question5 n = \<lparr>q_slot = 5, q_type = ''numerical'', sequencecheck = Some n\<rparr>"

definition demo :: env where
  "demo = \<lparr>
     getCurrentSiteId = ''site'',
     instant = (\<lambda>key. key),
     isOnline = (\<lambda>_. True),
     isBlocked = (\<lambda>_ _ _. False),
     isAttemptFinished = (\<lambda>s. s = ''finished'' \<or> s = ''abandoned''),
     validateSequenceCheck =
       (\<lambda>q token. case token of
            None \<Rightarrow> False
          | Some t \<Rightarrow> dropWhile (\<lambda>c. c = CHR ''0'') t = String (sequencecheck q)),
     convertAnswersArrayToObject = map (\<lambda>r. (ans_name r, ans_value r)),
     classifyAnswersInQuestions = (\<lambda>a. [(5, \<lparr>oq_state = ''todo'', oq_answers = a\<rparr>)]),
     extractAnswersFromQuestions = (\<lambda>qs. concat (map (\<lambda>(slot, q). oq_answers q) qs)),
     getPagesFromLayoutAndQuestions = (\<lambda>_ _. [0]),
     settle = (\<lambda>_. None),
     getQuizAttempts = (\<lambda>_. Inr [stored21]),
     getUserAttempts = (\<lambda>h. Inr (site_attempts h)),
     getAttemptAnswers =
       (\<lambda>_. Inr [\<lparr>ans_slot = 5, ans_name = '':sequencecheck'', ans_value = ''3''\<rparr>,
                  \<lparr>ans_slot = 5, ans_name = ''answer'', ans_value = ''42''\<rparr>]),
     getQuizAccessInformation = (\<lambda>_. Inr []),
     getPreflightData = (\<lambda>_. Inr []),
     getAllQuestionsData = (\<lambda>_. Inr [(5, question5 3)]),
     prepareSyncData = (\<lambda>h. case last h of CPrepareSyncData _ a _ _ \<Rightarrow> Inr a | _ \<Rightarrow> Inl TypeError),
     getModuleBasicInfoByInstance = (\<lambda>_. Inr \<lparr>module_id = 11\<rparr>),
     getModuleUpdates = (\<lambda>_. Inr None),
     getAllAttempts = (\<lambda>_. Inr [stored21]),
     getQuizById = (\<lambda>_. Inr quiz7),
     isSyncNeeded = (\<lambda>_. Inr True),
     getOngoingSync = (\<lambda>_ _ _. None),
     answered = (\<lambda>_. [])\<rparr>"

text \<open>The same site after the question of slot 5 moved on to sequence check 4.\<close>

definition moved :: env where
  "moved = demo\<lparr>getAllQuestionsData := (\<lambda>_. Inr [(5, question5 4)])\<rparr>"

text \<open>Three stored questions: the site moved on in slot 5 and has no question in slot 8.\<close>

definition stored_questions :: "offline_question slots" where
  "stored_questions =
     [(5, \<lparr>oq_state = ''todo'', oq_answers = [('':sequencecheck'', ''3''), (''answer'', ''42'')]\<rparr>),
      (6, \<lparr>oq_state = ''todo'', oq_answers = [('':sequencecheck'', ''02''), (''answer'', ''1'')]\<rparr>),
      (8, \<lparr>oq_state = ''todo'', oq_answers = [('':sequencecheck'', ''1''), (''answer'', ''0'')]\<rparr>)]"

definition site_questions :: "question slots" where
  "site_questions =
     [(5, question5 4), (6, \<lparr>q_slot = 6, q_type = ''numerical'', sequencecheck = Some 2\<rparr>)]"

text \<open>
  The site has a later attempt, 22, and the stored attempt 21 is open; the same after the
  question of slot 5 moved on.
\<close>

definition superseded :: env where
  "superseded = demo\<lparr>
     getUserAttempts :=
       (\<lambda>_. Inr [\<lparr>attempt_id = 21, attempt_state = ''inprogress'', layout = Some ''5,0''\<rparr>,
                  \<lparr>attempt_id = 22, attempt_state = ''inprogress'', layout = Some ''5,0''\<rparr>])\<rparr>"

definition superseded_moved :: env where
  "superseded_moved = superseded\<lparr>getAllQuestionsData := (\<lambda>_. Inr [(5, question5 4)])\<rparr>"

text \<open>The stored attempt is the one the site has finished, 20.\<close>

definition stale :: env where
  "stale = demo\<lparr>getQuizAttempts := (\<lambda>_. Inr [stored21\<lparr>off_id := 20\<rparr>])\<rparr>"

text \<open>The same, and the store fails to remove an attempt and its answers.\<close>

definition failing_store :: env where
  "failing_store = stale\<lparr>
     settle := (\<lambda>h. case last h of
                      CRemoveAttemptAndAnswers _ _ \<Rightarrow> Some (ServiceError ''database'')
                    | _ \<Rightarrow> None)\<rparr>"

text \<open>The stored attempt has the identifier 0, which no attempt of the site has.\<close>

definition unnumbered :: env where
  "unnumbered = demo\<lparr>getQuizAttempts := (\<lambda>_. Inr [stored21\<lparr>off_id := 0\<rparr>])\<rparr>"

text \<open>
  The list of all the offline attempts still has the attempt of quiz 7, but the attempt is
  gone when the sync of the quiz reads the store (a sync of the quiz that ended in between
  removed it).
\<close>

definition gone :: env where
  "gone = demo\<lparr>getQuizAttempts := (\<lambda>_. Inr [])\<rparr>"

text \<open>The device is not online.\<close>

definition disconnected :: env where
  "disconnected = demo\<lparr>isOnline := (\<lambda>_. False)\<rparr>"

text \<open>
  Three quizzes have an offline attempt. The site fails to list the attempts of quiz 8
  and has no quiz 9; for quiz 7 it is the site that moved on in slot 5.
\<close>

definition quiz8 :: quiz where
  "quiz8 = \<lparr>quiz_id = 8, course = 3, coursemodule = 12\<rparr>"

definition stored31 :: offline_attempt where
  "stored31 = \<lparr>off_id = 31, off_quizid = 8, off_courseid = 3, finished = 0, currentpage = 0\<rparr>"

definition stored41 :: offline_attempt where
  "stored41 = \<lparr>off_id = 41, off_quizid = 9, off_courseid = 3, finished = 0, currentpage = 0\<rparr>"

definition three_quizzes :: env where
  "three_quizzes = moved\<lparr>
     getAllAttempts := (\<lambda>_. Inr [stored31, stored21, stored41]),
     getQuizById :=
       (\<lambda>h. case last h of
               CGetQuizById _ q _ \<Rightarrow>
                 if q = 8 then Inr quiz8 else if q = 7 then Inr quiz7
                 else Inl (ServiceError ''notfound'')
             | _ \<Rightarrow> Inl TypeError),
     getQuizAttempts :=
       (\<lambda>h. case last h of
               CGetQuizAttempts q _ \<Rightarrow> Inr (if q = 8 then [stored31] else [stored21])
             | _ \<Rightarrow> Inl TypeError),
     getUserAttempts :=
       (\<lambda>h. case last h of
               CGetUserAttempts q _ _ _ \<Rightarrow>
                 if q = 8 then Inl (ServiceError ''timeout'') else Inr (site_attempts h)
             | _ \<Rightarrow> Inl TypeError)\<rparr>"




section \<open>Promises and objects: basic facts\<close>

lemmas promise_defs =
  resolve_def reject_def await_def request_def perform_def ignoreErrors_def try_catch_ignore_def

lemma object_keys_set: "set (object_keys obj) = fst ` set obj"
  by (simp add: object_keys_def)

lemma object_keys_distinct: "distinct (object_keys obj)"
  by (simp add: object_keys_def)

lemma object_keys_sorted: "sorted (object_keys obj)"
  by (simp add: object_keys_def)

lemma object_keys_map_of: "slot \<in> set (object_keys obj) \<longleftrightarrow> map_of obj slot \<noteq> None"
  by (simp add: object_keys_set map_of_eq_None_iff)

lemma object_keys_eqI:
  assumes "\<And>slot. map_of obj slot \<noteq> None \<longleftrightarrow> slot \<in> set ks" and "sorted ks" and "distinct ks"
  shows "object_keys obj = ks"
proof (rule sorted_distinct_set_unique)
  show "set (object_keys obj) = set ks"
    using assms(1) by (auto simp: object_keys_map_of)
qed (simp_all add: object_keys_sorted object_keys_distinct assms)

lemma promise_all_Cons_calls:
  "snd (promise_all (m # ms) h) = snd (m h) @ snd (promise_all ms (h @ snd (m h)))"
  by (cases "m h"; cases "promise_all ms (h @ snd (m h))"; simp)

lemma promise_all_Cons_result:
  "fst (promise_all (m # ms) h) =
     (case fst (m h) of
        Inl err \<Rightarrow> Inl err
      | Inr x \<Rightarrow> (case fst (promise_all ms (h @ snd (m h))) of
                    Inl err \<Rightarrow> Inl err | Inr xs \<Rightarrow> Inr (x # xs)))"
  by (cases "m h"; cases "promise_all ms (h @ snd (m h))"; auto split: sum.splits)

lemma await_calls:
  "snd (await m f h) =
     (case fst (m h) of Inl err \<Rightarrow> snd (m h) | Inr x \<Rightarrow> snd (m h) @ snd (f x (h @ snd (m h))))"
  by (cases "m h"; cases "fst (m h)"; simp add: await_def split: prod.splits)

lemma await_result:
  "fst (await m f h) =
     (case fst (m h) of Inl err \<Rightarrow> Inl err | Inr x \<Rightarrow> fst (f x (h @ snd (m h))))"
  by (cases "m h"; cases "fst (m h)"; simp add: await_def split: prod.splits)

lemma request_result: "fst (request c answer h) = answer (h @ [c])"
  by (simp add: request_def)

lemma request_calls: "snd (request c answer h) = [c]"
  by (simp add: request_def)

lemma perform_result:
  "fst (perform e c h) = (case settle e (h @ [c]) of None \<Rightarrow> Inr () | Some err \<Rightarrow> Inl err)"
  by (simp add: perform_def split: option.splits)

lemma perform_calls: "snd (perform e c h) = [c]"
  by (simp add: perform_def split: option.splits)

lemma ignoreErrors_result:
  "fst (ignoreErrors m h) = Inr (case fst (m h) of Inl err \<Rightarrow> None | Inr x \<Rightarrow> Some x)"
  by (cases "m h"; cases "fst (m h)"; simp add: ignoreErrors_def)

lemma ignoreErrors_calls: "snd (ignoreErrors m h) = snd (m h)"
  by (cases "m h"; cases "fst (m h)"; simp add: ignoreErrors_def)

lemma resolve_result: "fst (resolve x h) = Inr x"
  by (simp add: resolve_def)

lemma resolve_calls: "snd (resolve x h) = []"
  by (simp add: resolve_def)

lemma reject_result: "fst (reject err h) = Inl err"
  by (simp add: reject_def)

lemma reject_calls: "snd (reject err h) = []"
  by (simp add: reject_def)

lemmas run_simps =
  await_result await_calls request_result request_calls perform_result perform_calls
  ignoreErrors_result ignoreErrors_calls resolve_result resolve_calls reject_result reject_calls

lemma await_appended:
  "await m f h = (case fst (m h) of Inl err \<Rightarrow> (Inl err, snd (m h))
                  | Inr x \<Rightarrow> appended (snd (m h)) (f x (h @ snd (m h))))"
  by (cases "m h"; cases "fst (m h)"; simp add: await_def appended_def split: prod.splits)

lemma only_calls_resolve: "only_calls P (resolve x)"
  by (simp add: only_calls_def resolve_def)

lemma only_calls_reject: "only_calls P (reject err)"
  by (simp add: only_calls_def reject_def)

lemma only_calls_request: "P c \<Longrightarrow> only_calls P (request c answer)"
  by (simp add: only_calls_def request_def)

lemma only_calls_perform: "P c \<Longrightarrow> only_calls P (perform e c)"
  by (simp add: only_calls_def perform_def split: option.splits)

lemma only_calls_trigger: "P c \<Longrightarrow> only_calls P (trigger c)"
  by (simp add: only_calls_def trigger_def)

lemma only_calls_await:
  assumes "only_calls P m" and "\<And>x. only_calls P (f x)"
  shows "only_calls P (await m f)"
  using assms by (auto simp: only_calls_def await_calls split: sum.splits)

lemma only_calls_ignoreErrors: "only_calls P m \<Longrightarrow> only_calls P (ignoreErrors m)"
  by (auto simp: only_calls_def ignoreErrors_def split: prod.splits sum.splits) (metis snd_conv)+

lemma only_calls_try_catch_ignore: "only_calls P m \<Longrightarrow> only_calls P (try_catch_ignore m)"
  by (simp add: try_catch_ignore_def only_calls_await only_calls_ignoreErrors only_calls_resolve)

lemma promise_all_calls_in:
  "\<forall>m \<in> set ms. only_calls P m \<Longrightarrow> c \<in> set (snd (promise_all ms h)) \<Longrightarrow> P c"
proof (induction ms arbitrary: h)
  case Nil
  then show ?case by simp
next
  case (Cons m ms)
  from Cons.prems(2) have "c \<in> set (snd (m h)) \<or> c \<in> set (snd (promise_all ms (h @ snd (m h))))"
    by (simp add: promise_all_Cons_calls del: promise_all.simps)
  then show ?case
  proof
    assume "c \<in> set (snd (m h))"
    with Cons.prems(1) show ?thesis
      by (simp add: only_calls_def)
  next
    assume "c \<in> set (snd (promise_all ms (h @ snd (m h))))"
    with Cons.IH Cons.prems(1) show ?thesis
      by simp
  qed
qed

lemma only_calls_promise_all:
  assumes "\<And>m. m \<in> set ms \<Longrightarrow> only_calls P m"
  shows "only_calls P (promise_all ms)"
  using assms promise_all_calls_in [of ms P] by (simp add: only_calls_def)

lemma only_calls_mono: "only_calls P m \<Longrightarrow> (\<And>c. P c \<Longrightarrow> Q c) \<Longrightarrow> only_calls Q m"
  by (auto simp: only_calls_def)

lemma only_callsD: "only_calls P m \<Longrightarrow> c \<in> set (snd (m h)) \<Longrightarrow> P c"
  by (auto simp: only_calls_def)

lemmas only_calls_intros =
  only_calls_resolve only_calls_reject only_calls_request only_calls_perform only_calls_trigger
  only_calls_await only_calls_ignoreErrors only_calls_try_catch_ignore only_calls_promise_all

lemma is_slot_removal_iff: "is_slot_removal c \<longleftrightarrow> (\<exists>x y z. c = CRemoveQuestionAndAnswers x y z)"
  by (cases c) (simp_all add: is_slot_removal_def)

lemma list_ex_slot_removal:
  "list_ex is_slot_removal cs \<longleftrightarrow> (\<exists>x y z. CRemoveQuestionAndAnswers x y z \<in> set cs)"
  by (auto simp: list_ex_iff is_slot_removal_iff)

lemma only_calls_cond:
  "only_calls P m \<Longrightarrow> only_calls P m' \<Longrightarrow> only_calls P (\<lambda>h. if b h then m h else m' h)"
  by (auto simp: only_calls_def)

lemma filter_promise_all_none:
  assumes "\<forall>m \<in> set ms. only_calls (\<lambda>c. \<not> P c) m"
  shows "filter P (snd (promise_all ms h)) = []"
  using promise_all_calls_in [OF assms] by (auto simp: filter_empty_conv)

lemma filter_only_calls_none:
  assumes "only_calls (\<lambda>c. \<not> P c) m"
  shows "filter P (snd (m h)) = []"
  using assms by (auto simp: only_calls_def filter_empty_conv)


lemma split_after:
  assumes "A @ B = pre @ x # post" and "x \<notin> set A"
  obtains us where "pre = A @ us" and "B = us @ x # post"
proof -
  from assms(1) obtain us where
    "(A = pre @ us \<and> us @ B = x # post) \<or> (A @ us = pre \<and> B = us @ x # post)"
    by (auto simp: append_eq_append_conv2)
  then show ?thesis
  proof
    assume a: "A = pre @ us \<and> us @ B = x # post"
    show ?thesis
    proof (cases us)
      case Nil
      with a show ?thesis by (intro that [of "[]"]) simp_all
    next
      case (Cons u us')
      with a assms(2) show ?thesis by auto
    qed
  next
    assume "A @ us = pre \<and> B = us @ x # post"
    then show ?thesis by (intro that [of us]) simp_all
  qed
qed


section \<open>validateQuestions\<close>

lemma validateQuestion_calls:
  assumes "map_of offQs slot \<noteq> None"
  shows "snd (validateQuestion e a onQs offQs site slot h) =
     (if accepted e onQs offQs slot then [] else [CRemoveQuestionAndAnswers a slot site])"
  using assms
  by (auto simp: validateQuestion_def accepted_def promise_defs Let_def split: option.splits)

lemma validateQuestion_result:
  assumes "map_of offQs slot \<noteq> None"
  shows "fst (validateQuestion e a onQs offQs site slot h) =
     (if accepted e onQs offQs slot
      then Inr (accept_slot slot (online_token onQs slot))
      else (case settle e (h @ [CRemoveQuestionAndAnswers a slot site]) of
              None \<Rightarrow> Inr (discard_slot slot) | Some err \<Rightarrow> Inl err))"
  using assms
  by (auto simp: validateQuestion_def accepted_def online_token_def promise_defs Let_def split: option.splits)

lemma validate_all_calls:
  assumes "\<And>k. k \<in> set ks \<Longrightarrow> map_of offQs k \<noteq> None"
  shows "snd (promise_all (map (validateQuestion e a onQs offQs site) ks) h) =
     map (\<lambda>slot. CRemoveQuestionAndAnswers a slot site) (filter (\<lambda>slot. \<not> accepted e onQs offQs slot) ks)"
  using assms
proof (induction ks arbitrary: h)
  case Nil
  then show ?case by simp
next
  case (Cons k ks)
  then show ?case
    by (simp add: promise_all_Cons_calls validateQuestion_calls del: promise_all.simps)
qed

lemma validate_all_result:
  assumes "\<And>k. k \<in> set ks \<Longrightarrow> map_of offQs k \<noteq> None"
  shows "fst (promise_all (map (validateQuestion e a onQs offQs site) ks) h) =
     (case first_rejection e h
             (map (\<lambda>slot. CRemoveQuestionAndAnswers a slot site)
                (filter (\<lambda>slot. \<not> accepted e onQs offQs slot) ks)) of
        Some err \<Rightarrow> Inl err
      | None \<Rightarrow> Inr (map (change_of e onQs offQs) ks))"
  using assms
proof (induction ks arbitrary: h)
  case Nil
  then show ?case by simp
next
  case (Cons k ks)
  then show ?case
    by (simp add: promise_all_Cons_result validateQuestion_calls validateQuestion_result change_of_def
        del: promise_all.simps split: option.splits)
qed

lemma fold_changes_flag:
  "fst (fold (\<lambda>change v. change v) (map (change_of e onQs offQs) ks) (d, obj)) =
     (d \<or> (\<exists>k\<in>set ks. \<not> accepted e onQs offQs k))"
  by (induction ks arbitrary: d obj) (auto simp: change_of_def accept_slot_def discard_slot_def)

lemma fold_changes_object:
  assumes "distinct ks"
  shows "map_of (snd (fold (\<lambda>change v. change v) (map (change_of e onQs offQs) ks) (d, obj))) slot =
     (if slot \<in> set ks
      then (if accepted e onQs offQs slot
            then map_option (set_sequencecheck (online_token onQs slot)) (map_of obj slot)
            else None)
      else map_of obj slot)"
  using assms
proof (induction ks arbitrary: d obj)
  case Nil
  then show ?case by simp
next
  case (Cons k ks)
  then show ?case
    by (auto simp: change_of_def accept_slot_def discard_slot_def map_of_map_entry delete_conv
        split: option.splits)
qed

lemma accepted_stored: "accepted e onQs offQs slot \<Longrightarrow> map_of offQs slot \<noteq> None"
  by (auto simp: accepted_def split: option.splits)

lemma validateQuestions_calls:
  "snd (validateQuestions e a onQs offQs site h) =
     map (\<lambda>slot. CRemoveQuestionAndAnswers a slot site)
       (filter (\<lambda>slot. \<not> accepted e onQs offQs slot) (object_keys offQs))"
proof -
  have "snd (promise_all (map (validateQuestion e a onQs offQs site) (object_keys offQs)) h) =
      map (\<lambda>slot. CRemoveQuestionAndAnswers a slot site)
        (filter (\<lambda>slot. \<not> accepted e onQs offQs slot) (object_keys offQs))"
    by (rule validate_all_calls) (simp add: object_keys_map_of)
  then show ?thesis
    by (simp add: validateQuestions_def await_calls resolve_def split: sum.splits)
qed

lemma validateQuestions_result:
  "fst (validateQuestions e a onQs offQs site h) =
     (case first_rejection e h
             (map (\<lambda>slot. CRemoveQuestionAndAnswers a slot site)
                (filter (\<lambda>slot. \<not> accepted e onQs offQs slot) (object_keys offQs))) of
        Some err \<Rightarrow> Inl err
      | None \<Rightarrow> Inr (fold (\<lambda>change v. change v) (map (change_of e onQs offQs) (object_keys offQs))
                       (False, offQs)))"
proof -
  have "fst (promise_all (map (validateQuestion e a onQs offQs site) (object_keys offQs)) h) =
     (case first_rejection e h
             (map (\<lambda>slot. CRemoveQuestionAndAnswers a slot site)
                (filter (\<lambda>slot. \<not> accepted e onQs offQs slot) (object_keys offQs))) of
        Some err \<Rightarrow> Inl err
      | None \<Rightarrow> Inr (map (change_of e onQs offQs) (object_keys offQs)))"
    by (rule validate_all_result) (simp add: object_keys_map_of)
  then show ?thesis
    by (simp add: validateQuestions_def await_result resolve_def split: option.splits)
qed

lemma validateQuestions_only_calls:
  "only_calls (\<lambda>c. \<exists>x y z. c = CRemoveQuestionAndAnswers x y z)
     (validateQuestions e a onQs offQs site)"
  by (auto simp: only_calls_def validateQuestions_calls)

lemma validateQuestions_flag:
  assumes "fst (validateQuestions e a onQs offQs site h) = Inr (d, v)"
  shows "d = (snd (validateQuestions e a onQs offQs site h) \<noteq> [])"
proof -
  from assms have "d = fst (fold (\<lambda>change v. change v)
      (map (change_of e onQs offQs) (object_keys offQs)) (False, offQs))"
    by (auto simp: validateQuestions_result split: option.splits)
  then show ?thesis
    by (simp add: fold_changes_flag validateQuestions_calls filter_empty_conv)
qed

text \<open>
  Claim C2. \<open>validateQuestions\<close> asks the store to remove the data of exactly the slots
  of the offline set that are not accepted: those with no question on the site, and those
  whose stored sequence check the delegate rejects for the question of the site. When the
  store removes them all, the function resolves; its flag is true exactly when some slot
  was not accepted; the slots left in the offline set are the accepted ones, each with
  its \<open>:sequencecheck\<close> answer overwritten by \<open>String\<close> of the sequence check of the
  question of the site, and every other slot is gone. When the store rejects a removal,
  the function rejects with the first such rejection.
\<close>

theorem validateQuestions_slots:
  fixes e attemptId onlineQuestions offlineQuestions siteId h
  defines "keep \<equiv> accepted e onlineQuestions offlineQuestions"
  defines "removals \<equiv> map (\<lambda>slot. CRemoveQuestionAndAnswers attemptId slot siteId)
                        (filter (\<lambda>slot. \<not> keep slot) (object_keys offlineQuestions))"
  shows "snd (validateQuestions e attemptId onlineQuestions offlineQuestions siteId h) = removals \<and>
     (case fst (validateQuestions e attemptId onlineQuestions offlineQuestions siteId h) of
        Inl err \<Rightarrow> first_rejection e h removals = Some err
      | Inr (discardedData, remaining) \<Rightarrow>
          first_rejection e h removals = None \<and>
          discardedData = (\<exists>slot \<in> set (object_keys offlineQuestions). \<not> keep slot) \<and>
          object_keys remaining = filter keep (object_keys offlineQuestions) \<and>
          (\<forall>slot. map_of remaining slot =
             (if keep slot
              then map_option (set_sequencecheck (online_token onlineQuestions slot))
                     (map_of offlineQuestions slot)
              else None)))"
proof -
  let ?run = "validateQuestions e attemptId onlineQuestions offlineQuestions siteId h"
  let ?v = "fold (\<lambda>change v. change v)
              (map (change_of e onlineQuestions offlineQuestions) (object_keys offlineQuestions))
              (False, offlineQuestions)"
  have calls: "snd ?run = removals"
    by (simp add: validateQuestions_calls removals_def keep_def)
  have result: "fst ?run = (case first_rejection e h removals of Some err \<Rightarrow> Inl err | None \<Rightarrow> Inr ?v)"
    by (simp add: validateQuestions_result removals_def keep_def)
  have flag: "fst ?v = (\<exists>slot \<in> set (object_keys offlineQuestions). \<not> keep slot)"
    by (simp add: fold_changes_flag keep_def)
  have object: "map_of (snd ?v) slot =
      (if keep slot
       then map_option (set_sequencecheck (online_token onlineQuestions slot))
              (map_of offlineQuestions slot)
       else None)" for slot
    using accepted_stored [of e onlineQuestions offlineQuestions slot]
    by (auto simp: fold_changes_object object_keys_distinct object_keys_map_of keep_def)
  have keys: "object_keys (snd ?v) = filter keep (object_keys offlineQuestions)"
  proof (rule object_keys_eqI)
    fix slot
    show "map_of (snd ?v) slot \<noteq> None \<longleftrightarrow> slot \<in> set (filter keep (object_keys offlineQuestions))"
      using accepted_stored [of e onlineQuestions offlineQuestions slot]
      by (auto simp: object object_keys_map_of keep_def)
  next
    show "sorted (filter keep (object_keys offlineQuestions))"
      by (simp add: sorted_wrt_filter object_keys_sorted)
  next
    show "distinct (filter keep (object_keys offlineQuestions))"
      by (simp add: object_keys_distinct)
  qed
  show ?thesis
  proof (cases "first_rejection e h removals")
    case None
    then have "fst ?run = Inr ?v"
      by (simp add: result)
    then show ?thesis
      using calls flag object keys None by (simp add: case_prod_beta)
  next
    case (Some err)
    then show ?thesis
      using calls result by simp
  qed
qed

theorem validateQuestions_slots_witness:
  "validateQuestions demo 21 site_questions stored_questions (Some ''site'') [] =
     (Inr (True,
        [(6, \<lparr>oq_state = ''todo'',
               oq_answers = [('':sequencecheck'', ''2''), (''answer'', ''1'')]\<rparr>)]),
      [CRemoveQuestionAndAnswers 21 5 (Some ''site''), CRemoveQuestionAndAnswers 21 8 (Some ''site'')])"
proof -
  have "validateQuestions demo 21 site_questions stored_questions (Some ''site'') [] =
     (Inr (True,
        [(6, \<lparr>oq_state = ''todo'',
               oq_answers = [('':sequencecheck'', ''2''), (''answer'', ''1'')]\<rparr>)]),
      [CRemoveQuestionAndAnswers 21 5 (Some ''site''), CRemoveQuestionAndAnswers 21 8 (Some ''site'')])"
    by code_simp
  with validateQuestions_slots [of demo 21 site_questions stored_questions "Some ''site''" "[]"]
  show ?thesis
    by simp
qed

section \<open>finishSync: the calls it makes\<close>

lemma prefetch_only_calls:
  "only_calls (prefetch_call module quiz courseId siteId) (prefetchAfterUpdateQuiz e module quiz courseId siteId)"
  unfolding prefetchAfterUpdateQuiz_def Let_def
  by (intro only_calls_intros allI impI; simp add: prefetch_call_def only_calls_intros)

lemma finishSync_only_calls:
  "only_calls (finish_call siteId quiz courseId (opt_attemptId options))
     (finishSync e siteId quiz courseId warns options)"
  unfolding finishSync_def
  apply (intro only_calls_await only_calls_ignoreErrors only_calls_perform only_calls_resolve)
  subgoal by (simp add: finish_call_def)
  subgoal
    by (auto simp: finish_call_def truthy_boolean_def truthy_number_def
        intro!: only_calls_intros split: option.splits)
  subgoal
    by (auto simp: finish_call_def intro!: only_calls_intros
        only_calls_mono [OF prefetch_only_calls])
  subgoal by (simp add: finish_call_def)
  subgoal by (auto simp: finish_call_def intro!: only_calls_intros split: option.splits)
  done

lemma finish_call_kind:
  "finish_call siteId quiz courseId attemptId c \<Longrightarrow> \<not> is_submission c \<and> \<not> is_slot_removal c"
  by (auto simp: finish_call_def prefetch_call_def is_submission_def is_slot_removal_def)

lemma finishSync_kind:
  assumes "c \<in> set (snd (finishSync e siteId quiz courseId warns options h))"
  shows "\<not> is_submission c \<and> \<not> is_slot_removal c"
  using assms only_callsD [OF finishSync_only_calls] finish_call_kind by blast

lemma finishSync_invalidates:
  "CInvalidateAllQuizData (quiz_id quiz) courseId (opt_attemptId options) siteId
     \<in> set (snd (finishSync e siteId quiz courseId warns options h))"
  by (simp add: finishSync_def run_simps split: sum.splits)

lemma finishSync_removes:
  assumes "opt_removeAttempt options = Some True" and "opt_attemptId options = Some x" and "x \<noteq> 0"
  shows "CRemoveAttemptAndAnswers x siteId
     \<in> set (snd (finishSync e siteId quiz courseId warns options h))"
  using assms
  by (simp add: finishSync_def run_simps truthy_boolean_def truthy_number_def
      promise_all_Cons_calls del: promise_all.simps split: sum.splits)

lemma finish_call_no_event: "finish_call siteId quiz courseId attemptId c \<Longrightarrow> no_event c"
  by (auto simp: finish_call_def prefetch_call_def no_event_def)

lemma finish_call_ids:
  assumes "finish_call siteId quiz courseId attemptId c"
  shows "(\<forall>q ci x s. c = CInvalidateAllQuizData q ci x s \<longrightarrow> x = attemptId) \<and>
         (\<forall>x s. c = CRemoveAttemptAndAnswers x s \<longrightarrow> attemptId = Some x)"
  using assms by (auto simp: finish_call_def prefetch_call_def)

lemma finishSync_no_submission:
  "filter is_submission (snd (finishSync e siteId quiz courseId warns options h)) = []"
  using finishSync_kind by (fastforce simp: filter_empty_conv)

section \<open>performSyncQuiz: its parts and its paths\<close>

lemma prepareQuestion_only_calls:
  "only_calls (\<lambda>c. \<exists>q a. c = CPrepareSyncData q a (coursemodule quiz) siteId)
     (prepareQuestion e quiz siteId onlineQuestions validQuestions slot)"
  unfolding prepareQuestion_def
  by (auto intro!: only_calls_intros split: option.splits)

lemma submit_only_calls:
  "only_calls (submit_call quiz siteId offlineAttempt onlineAttempt lastAttemptId preflightData discardedData)
     (performSyncQuiz_submit e quiz siteId offlineAttempt onlineAttempt lastAttemptId preflightData
        onlineQuestions discardedData validQuestions)"
  unfolding performSyncQuiz_submit_def Let_def
  apply (intro only_calls_await only_calls_promise_all)
  subgoal for m
    by (auto simp: submit_call_def intro: only_calls_mono [OF prepareQuestion_only_calls])
  subgoal by (auto simp: submit_call_def intro!: only_calls_intros)
  subgoal by (auto simp: submit_call_def intro!: only_calls_intros)
  subgoal
    by (rule only_calls_mono [OF finishSync_only_calls]) (simp add: submit_call_def no_options_def)
  done

lemma submit_call_kind:
  assumes "submit_call quiz siteId off on lastId pf d c"
  shows "\<not> is_slot_removal c" and "is_submission c \<Longrightarrow> finish_flag c = (finished off \<noteq> 0 \<and> \<not> d)"
  using assms
  by (auto simp: submit_call_def finish_call_def prefetch_call_def is_submission_def
      is_slot_removal_def finish_flag_def)

lemma send_submission:
  assumes "c \<in> set (snd (performSyncQuiz_send e quiz ask site off on lastId offQs h))"
      and "is_submission c"
  shows "finish_flag c =
     (finished off \<noteq> 0 \<and>
      \<not> list_ex is_slot_removal (snd (performSyncQuiz_send e quiz ask site off on lastId offQs h)))"
proof -
  let ?c1 = "CGetQuizAccessInformation (quiz_id quiz) site"
  show ?thesis
  proof (cases "getQuizAccessInformation e (h @ [?c1])")
    case (Inl err)
    with assms show ?thesis
      by (simp add: performSyncQuiz_send_def run_simps is_submission_def)
  next
    case info: (Inr info)
    let ?c2 = "CGetPreflightData (quiz_id quiz) info (attempt_id on) ask site"
    show ?thesis
    proof (cases "getPreflightData e (h @ [?c1, ?c2])")
      case (Inl err)
      with assms info show ?thesis
        by (auto simp: performSyncQuiz_send_def run_simps is_submission_def)
    next
      case pf: (Inr pf)
      let ?c3 = "CGetAllQuestionsData (quiz_id quiz) (attempt_id on) pf
                   (getPagesFromLayoutAndQuestions e (or_string (layout on) []) offQs) site"
      show ?thesis
      proof (cases "getAllQuestionsData e (h @ [?c1, ?c2, ?c3])")
        case (Inl err)
        with assms info pf show ?thesis
          by (auto simp: performSyncQuiz_send_def run_simps is_submission_def)
      next
        case onQs: (Inr onQs)
        let ?h3 = "h @ [?c1, ?c2, ?c3]"
        let ?val = "validateQuestions e (attempt_id on) onQs offQs (Some site) ?h3"
        have removals: "\<forall>c \<in> set (snd ?val). is_slot_removal c \<and> \<not> is_submission c"
          by (auto simp: validateQuestions_calls is_slot_removal_def is_submission_def)
        show ?thesis
        proof (cases "fst ?val")
          case (Inl err)
          then have calls: "snd (performSyncQuiz_send e quiz ask site off on lastId offQs h) =
              [?c1, ?c2, ?c3] @ snd ?val"
            using info pf onQs by (simp add: performSyncQuiz_send_def run_simps)
          with assms removals show ?thesis
            by (auto simp: is_submission_def)
        next
          case (Inr dv)
          obtain d v where dv: "dv = (d, v)"
            by (cases dv)
          let ?sub = "performSyncQuiz_submit e quiz site off on lastId pf onQs d v (?h3 @ snd ?val)"
          have calls: "snd (performSyncQuiz_send e quiz ask site off on lastId offQs h) =
              [?c1, ?c2, ?c3] @ snd ?val @ snd ?sub"
            using info pf onQs Inr dv by (simp add: performSyncQuiz_send_def run_simps)
          have sub: "\<forall>c \<in> set (snd ?sub). submit_call quiz site off on lastId pf d c"
            using submit_only_calls [of quiz site off on lastId pf d e onQs v]
            by (simp add: only_calls_def)
          have d: "d = (snd ?val \<noteq> [])"
            using Inr dv by (simp add: validateQuestions_flag)
          have "c \<in> set (snd ?sub)"
            using assms removals calls by (auto simp: is_submission_def)
          with sub have flag: "finish_flag c = (finished off \<noteq> 0 \<and> \<not> d)"
            using assms(2) submit_call_kind(2) by blast
          have "list_ex is_slot_removal (snd (performSyncQuiz_send e quiz ask site off on lastId offQs h))
              = (snd ?val \<noteq> [])"
            using removals sub submit_call_kind(1)
            by (cases "snd ?val") (auto simp: calls list_ex_iff is_slot_removal_def)
          with flag d show ?thesis
            by simp
        qed
      qed
    qed
  qed
qed

lemma send_only_calls:
  "only_calls (send_call quiz siteId lastId)
     (performSyncQuiz_send e quiz ask siteId off on lastId offQs)"
  unfolding performSyncQuiz_send_def
proof (intro only_calls_await only_calls_request allI)
  show "send_call quiz siteId lastId (CGetQuizAccessInformation (quiz_id quiz) siteId)"
    by (simp add: send_call_def)
next
  fix info
  show "send_call quiz siteId lastId
     (CGetPreflightData (quiz_id quiz) info (attempt_id on) ask siteId)"
    by (simp add: send_call_def)
next
  fix pf
  show "send_call quiz siteId lastId
     (CGetAllQuestionsData (quiz_id quiz) (attempt_id on) pf
        (getPagesFromLayoutAndQuestions e (or_string (layout on) []) offQs) siteId)"
    by (simp add: send_call_def)
next
  fix onQs
  show "only_calls (send_call quiz siteId lastId)
     (validateQuestions e (attempt_id on) onQs offQs (Some siteId))"
    by (auto simp: only_calls_def validateQuestions_calls send_call_def)
next
  fix info pf onQs and dv :: validation
  show "only_calls (send_call quiz siteId lastId)
     (case dv of (discardedData, validQuestions) \<Rightarrow>
        performSyncQuiz_submit e quiz siteId off on lastId pf onQs discardedData validQuestions)"
  proof (cases dv)
    case (Pair d v)
    have "only_calls (send_call quiz siteId lastId)
       (performSyncQuiz_submit e quiz siteId off on lastId pf onQs d v)"
      by (rule only_calls_mono [OF submit_only_calls]) (auto simp: submit_call_def send_call_def)
    with Pair show ?thesis
      by simp
  qed
qed

lemma performSyncQuiz_paths:
  fixes e quiz askPreflight siteId h
  defines "site \<equiv> or_string siteId (getCurrentSiteId e)"
  defines "loaded \<equiv> [CSyncActivity (quiz_id quiz) site, CGetQuizAttempts (quiz_id quiz) site]"
  defines "fetched \<equiv> loaded @ [CGetUserAttempts (quiz_id quiz) (coursemodule quiz) True site]"
  defines "run \<equiv> performSyncQuiz e quiz askPreflight siteId h"
  obtains
    (unread) err where
      "getQuizAttempts e (h @ loaded) = Inl err"
      "run = (Inl err, loaded)"
  | (nothing)
      "getQuizAttempts e (h @ loaded) = Inr []"
      "run = appended loaded (finishSync e site quiz (course quiz) [] no_options (h @ loaded))"
  | (offline) offs where
      "getQuizAttempts e (h @ loaded) = Inr offs" "offs \<noteq> []"
      "\<not> isOnline e (h @ loaded)"
      "run = (Inl (CoreError (instant e ''core.cannotconnect'')), loaded)"
  | (unfetched) offs err where
      "getQuizAttempts e (h @ loaded) = Inr offs" "offs \<noteq> []"
      "isOnline e (h @ loaded)"
      "getUserAttempts e (h @ fetched) = Inl err"
      "run = (Inl err, fetched)"
  | (discard) offs ons where
      "getQuizAttempts e (h @ loaded) = Inr offs" "offs \<noteq> []"
      "isOnline e (h @ loaded)"
      "getUserAttempts e (h @ fetched) = Inr ons"
      "case find (\<lambda>a. attempt_id a = off_id (last offs)) ons of
         None \<Rightarrow> True | Some a \<Rightarrow> isAttemptFinished e (attempt_state a)"
      "run = appended fetched
         (finishSync e site quiz (course quiz) [instant e ''addon.mod_quiz.warningattemptfinished'']
            (no_options\<lparr>opt_attemptId := Some (off_id (last offs)),
                         opt_offlineAttempt := Some (last offs),
                         opt_onlineAttempt := find (\<lambda>a. attempt_id a = off_id (last offs)) ons,
                         opt_removeAttempt := Some True\<rparr>) (h @ fetched))"
  | (unanswered) offs ons on err where
      "getQuizAttempts e (h @ loaded) = Inr offs" "offs \<noteq> []"
      "isOnline e (h @ loaded)"
      "getUserAttempts e (h @ fetched) = Inr ons"
      "find (\<lambda>a. attempt_id a = off_id (last offs)) ons = Some on"
      "\<not> isAttemptFinished e (attempt_state on)"
      "getAttemptAnswers e (h @ fetched @ [CGetAttemptAnswers (off_id (last offs)) site]) = Inl err"
      "run = (Inl err, fetched @ [CGetAttemptAnswers (off_id (last offs)) site])"
  | (empty) offs ons on where
      "getQuizAttempts e (h @ loaded) = Inr offs" "offs \<noteq> []"
      "isOnline e (h @ loaded)"
      "getUserAttempts e (h @ fetched) = Inr ons"
      "find (\<lambda>a. attempt_id a = off_id (last offs)) ons = Some on"
      "\<not> isAttemptFinished e (attempt_state on)"
      "getAttemptAnswers e (h @ fetched @ [CGetAttemptAnswers (off_id (last offs)) site]) = Inr []"
      "run = appended (fetched @ [CGetAttemptAnswers (off_id (last offs)) site])
         (finishSync e site quiz (course quiz) []
            (no_options\<lparr>opt_attemptId := Some (attempt_id (last ons)),
                         opt_offlineAttempt := Some (last offs),
                         opt_onlineAttempt := Some on,
                         opt_removeAttempt := Some True\<rparr>)
            (h @ fetched @ [CGetAttemptAnswers (off_id (last offs)) site]))"
  | (send) offs ons on answersList where
      "getQuizAttempts e (h @ loaded) = Inr offs" "offs \<noteq> []"
      "isOnline e (h @ loaded)"
      "getUserAttempts e (h @ fetched) = Inr ons"
      "find (\<lambda>a. attempt_id a = off_id (last offs)) ons = Some on"
      "\<not> isAttemptFinished e (attempt_state on)"
      "getAttemptAnswers e (h @ fetched @ [CGetAttemptAnswers (off_id (last offs)) site])
         = Inr answersList"
      "answersList \<noteq> []"
      "run = appended (fetched @ [CGetAttemptAnswers (off_id (last offs)) site])
         (performSyncQuiz_send e quiz askPreflight site (last offs) on
            (Some (attempt_id (last ons)))
            (classifyAnswersInQuestions e (convertAnswersArrayToObject e answersList))
            (h @ fetched @ [CGetAttemptAnswers (off_id (last offs)) site]))"
proof -
  let ?answered = "fetched @ [CGetAttemptAnswers (off_id (last offs)) site]"
  show ?thesis
  proof (cases "getQuizAttempts e (h @ loaded)")
    case (Inl err)
    then have "run = (Inl err, loaded)"
      by (simp add: prod_eq_iff run_def performSyncQuiz_def run_simps site_def loaded_def Let_def)
    with Inl show ?thesis by (rule unread)
  next
    case offs: (Inr offs)
    show ?thesis
    proof (cases "offs = []")
      case True
      with offs have none: "getQuizAttempts e (h @ loaded) = Inr []"
        by simp
      then have "run = appended loaded (finishSync e site quiz (course quiz) [] no_options (h @ loaded))"
        by (simp add: prod_eq_iff run_def performSyncQuiz_def run_simps appended_def pop_def
            site_def loaded_def Let_def)
      with none show ?thesis by (rule nothing)
    next
      case nonempty: False
      show ?thesis
      proof (cases "isOnline e (h @ loaded)")
        case False
        with offs nonempty have "run = (Inl (CoreError (instant e ''core.cannotconnect'')), loaded)"
          by (simp add: prod_eq_iff run_def performSyncQuiz_def run_simps pop_def site_def
              loaded_def Let_def)
        with offs nonempty False show ?thesis by (rule offline)
      next
        case online: True
        show ?thesis
        proof (cases "getUserAttempts e (h @ fetched)")
          case (Inl err)
          with offs nonempty online have "run = (Inl err, fetched)"
            by (simp add: prod_eq_iff run_def performSyncQuiz_def run_simps pop_def site_def
                loaded_def fetched_def Let_def)
          with offs nonempty online Inl show ?thesis by (rule unfetched)
        next
          case ons: (Inr ons)
          let ?found = "find (\<lambda>a. attempt_id a = off_id (last offs)) ons"
          show ?thesis
          proof (cases "case ?found of None \<Rightarrow> True | Some a \<Rightarrow> isAttemptFinished e (attempt_state a)")
            case True
            with offs nonempty online ons have "run = appended fetched
               (finishSync e site quiz (course quiz) [instant e ''addon.mod_quiz.warningattemptfinished'']
                  (no_options\<lparr>opt_attemptId := Some (off_id (last offs)),
                         opt_offlineAttempt := Some (last offs),
                         opt_onlineAttempt := ?found,
                         opt_removeAttempt := Some True\<rparr>) (h @ fetched))"
              by (auto simp: prod_eq_iff run_def performSyncQuiz_def run_simps appended_def pop_def
                  site_def loaded_def fetched_def Let_def split: option.splits)
            with offs nonempty online ons True show ?thesis by (rule discard)
          next
            case False
            then obtain on where on: "?found = Some on" "\<not> isAttemptFinished e (attempt_state on)"
              by (auto split: option.splits)
            then have last: "ons \<noteq> []"
              by (cases ons) auto
            let ?answered = "fetched @ [CGetAttemptAnswers (off_id (last offs)) site]"
            show ?thesis
            proof (cases "getAttemptAnswers e (h @ ?answered)")
              case (Inl err)
              with offs nonempty online ons on have "run = (Inl err, ?answered)"
                by (simp add: prod_eq_iff run_def performSyncQuiz_def run_simps pop_def site_def
                    loaded_def fetched_def Let_def)
              with offs nonempty online ons on Inl show ?thesis by (rule unanswered)
            next
              case answers: (Inr answersList)
              show ?thesis
              proof (cases "answersList = []")
                case True
                with offs nonempty online ons on last answers have "run = appended ?answered
                   (finishSync e site quiz (course quiz) []
                      (no_options\<lparr>opt_attemptId := Some (attempt_id (last ons)),
                         opt_offlineAttempt := Some (last offs),
                         opt_onlineAttempt := Some on,
                         opt_removeAttempt := Some True\<rparr>) (h @ ?answered))"
                  by (simp add: prod_eq_iff run_def performSyncQuiz_def run_simps appended_def
                      pop_def site_def loaded_def fetched_def Let_def)
                moreover from answers True have "getAttemptAnswers e (h @ ?answered) = Inr []"
                  by simp
                ultimately show ?thesis
                  using offs nonempty online ons on by (intro empty)
              next
                case False
                with offs nonempty online ons on last answers have "run = appended ?answered
                   (performSyncQuiz_send e quiz askPreflight site (last offs) on
                      (Some (attempt_id (last ons)))
                      (classifyAnswersInQuestions e (convertAnswersArrayToObject e answersList))
                      (h @ ?answered))"
                  by (simp add: prod_eq_iff run_def performSyncQuiz_def run_simps appended_def
                      pop_def site_def loaded_def fetched_def Let_def)
                with offs nonempty online ons on answers False show ?thesis
                  by (rule send)
              qed
            qed
          qed
        qed
      qed
    qed
  qed
qed

lemma send_call_no_event: "send_call quiz siteId attemptId c \<Longrightarrow> no_event c"
  by (auto simp: send_call_def finish_call_def prefetch_call_def no_event_def)

lemma send_call_ids:
  assumes "send_call quiz siteId attemptId c"
  shows "(\<forall>q ci x s. c = CInvalidateAllQuizData q ci x s \<longrightarrow> x = attemptId) \<and>
         (\<forall>x s. c = CRemoveAttemptAndAnswers x s \<longrightarrow> attemptId = Some x)"
  using assms by (auto simp: send_call_def finish_call_def prefetch_call_def)

lemma performSyncQuiz_no_event:
  "only_calls no_event (performSyncQuiz e quiz askPreflight siteId)"
  unfolding performSyncQuiz_def Let_def
  apply (intro only_calls_await only_calls_ignoreErrors only_calls_perform only_calls_request)
     apply (simp add: no_event_def)
    apply (simp add: no_event_def)
   apply (auto intro!: only_calls_cond only_calls_reject only_calls_await only_calls_request
      only_calls_mono [OF finishSync_only_calls finish_call_no_event]
      only_calls_mono [OF send_only_calls send_call_no_event]
      split: option.splits)
   apply (simp_all add: no_event_def)
  done

lemma prepare_no_submission:
  "filter is_submission
     (snd (promise_all (map (prepareQuestion e quiz siteId onQs v) ks) h)) = []"
proof (rule filter_promise_all_none)
  show "\<forall>m \<in> set (map (prepareQuestion e quiz siteId onQs v) ks).
      only_calls (\<lambda>c. \<not> is_submission c) m"
    by (auto intro!: only_calls_mono [OF prepareQuestion_only_calls] simp: is_submission_def)
qed

lemma submit_one_submission:
  "length (filter is_submission
     (snd (performSyncQuiz_submit e quiz siteId off on lastId pf onQs d v h))) \<le> 1"
  unfolding performSyncQuiz_submit_def Let_def
  by (simp add: run_simps prepare_no_submission finishSync_no_submission is_submission_def
      split: sum.splits option.splits)

lemma send_one_submission:
  "length (filter is_submission
     (snd (performSyncQuiz_send e quiz ask siteId off on lastId offQs h))) \<le> 1"
proof -
  have val: "filter is_submission (snd (validateQuestions e a onQs offQs site h')) = []"
    for a onQs site h'
    by (auto simp: validateQuestions_calls filter_empty_conv is_submission_def)
  show ?thesis
    unfolding performSyncQuiz_send_def
    using submit_one_submission
    by (auto simp: run_simps val is_submission_def split: sum.splits prod.splits)
qed

lemma performSyncQuiz_one_submission:
  "length (filter is_submission (snd (performSyncQuiz e quiz askPreflight siteId h))) \<le> 1"
proof (cases rule: performSyncQuiz_paths [of e h quiz siteId askPreflight])
  case (send offs ons on answersList)
  then show ?thesis
    using send_one_submission by (simp add: appended_def is_submission_def)
qed (simp_all add: appended_def finishSync_no_submission is_submission_def)

section \<open>performSyncQuiz: the short paths\<close>

text \<open>
  Claim C4. When the store has no offline attempt for the quiz, \<open>performSyncQuiz\<close>
  resolves, whatever the other services answer, with no warnings, \<open>attemptFinished\<close>
  false and \<open>updated\<close> false. The calls it makes are the sync of the logs, the reading of
  the offline attempts, the invalidation of the cached data and the setting of the sync
  time: nothing is removed from the store and nothing is submitted.
\<close>

theorem nothing_to_sync:
  fixes e quiz askPreflight siteId h
  defines "site \<equiv> or_string siteId (getCurrentSiteId e)"
  assumes "getQuizAttempts e
             (h @ [CSyncActivity (quiz_id quiz) site, CGetQuizAttempts (quiz_id quiz) site]) = Inr []"
  shows "performSyncQuiz e quiz askPreflight siteId h =
     (Inr \<lparr>warnings = [], attemptFinished = False, updated = False\<rparr>,
      [CSyncActivity (quiz_id quiz) site, CGetQuizAttempts (quiz_id quiz) site,
       CInvalidateAllQuizData (quiz_id quiz) (course quiz) None site,
       CSetSyncTime (quiz_id quiz) site])"
  using assms
  by (simp add: performSyncQuiz_def finishSync_def promise_defs pop_def no_options_def
      truthy_boolean_def truthy_number_def Let_def split: option.splits)

theorem nothing_to_sync_witness:
  "performSyncQuiz (demo\<lparr>getQuizAttempts := (\<lambda>_. Inr [])\<rparr>) quiz7 None None [] =
     (Inr \<lparr>warnings = [], attemptFinished = False, updated = False\<rparr>,
      [CSyncActivity 7 ''site'', CGetQuizAttempts 7 ''site'',
       CInvalidateAllQuizData 7 3 None ''site'', CSetSyncTime 7 ''site''])"
  using nothing_to_sync [of "demo\<lparr>getQuizAttempts := (\<lambda>_. Inr [])\<rparr>" "[]" quiz7 None None]
  by (simp add: demo_def quiz7_def or_string_def)

text \<open>
  Claim C5. When the store has an offline attempt for the quiz and the device is not
  online, \<open>performSyncQuiz\<close> rejects with the error \<open>core.cannotconnect\<close>. The calls it
  made are the sync of the logs and the reading of the offline attempts: no attempt or
  question was fetched from the site, nothing was submitted and nothing was removed from
  the store.
\<close>

theorem cannot_connect:
  fixes e quiz askPreflight siteId h
  defines "site \<equiv> or_string siteId (getCurrentSiteId e)"
  defines "loaded \<equiv> [CSyncActivity (quiz_id quiz) site, CGetQuizAttempts (quiz_id quiz) site]"
  assumes "getQuizAttempts e (h @ loaded) = Inr offlineAttempts"
      and "offlineAttempts \<noteq> []"
      and "\<not> isOnline e (h @ loaded)"
  shows "performSyncQuiz e quiz askPreflight siteId h =
     (Inl (CoreError (instant e ''core.cannotconnect'')), loaded)"
  using assms
  by (simp add: performSyncQuiz_def promise_defs pop_def Let_def split: option.splits)

theorem cannot_connect_witness:
  "performSyncQuiz (demo\<lparr>isOnline := (\<lambda>_. False)\<rparr>) quiz7 None None [] =
     (Inl (CoreError ''core.cannotconnect''),
      [CSyncActivity 7 ''site'', CGetQuizAttempts 7 ''site''])"
  using cannot_connect [of "demo\<lparr>isOnline := (\<lambda>_. False)\<rparr>" "[]" quiz7 None "[stored21]" None]
  by (simp add: demo_def quiz7_def or_string_def)

text \<open>
  Claim C3, as amended. The store has an offline attempt, the device is online and the
  site has no attempt with the identifier of the offline attempt, or the one it has is
  finished. Provided that identifier is not zero (\<open>finishSync\<close> removes only when the
  identifier it is given is truthy), \<open>performSyncQuiz\<close> asks the store to remove the
  offline attempt and its answers and submits nothing: its calls are the sync of the
  logs, the two readings, the invalidation of the cached data and the removal. When the
  store removes the attempt, the sync sets the sync time and resolves with exactly one
  warning, \<open>attemptFinished\<close> false and \<open>updated\<close> true; when the store rejects the
  removal, the sync rejects with that error.
\<close>

theorem discard_stale_attempt:
  fixes e quiz askPreflight siteId h offlineAttempts onlineAttempts
  defines "site \<equiv> or_string siteId (getCurrentSiteId e)"
  defines "loaded \<equiv> [CSyncActivity (quiz_id quiz) site, CGetQuizAttempts (quiz_id quiz) site]"
  defines "fetched \<equiv> loaded @ [CGetUserAttempts (quiz_id quiz) (coursemodule quiz) True site]"
  defines "removal \<equiv> fetched @
             [CInvalidateAllQuizData (quiz_id quiz) (course quiz)
                (Some (off_id (last offlineAttempts))) site,
              CRemoveAttemptAndAnswers (off_id (last offlineAttempts)) site]"
  assumes "getQuizAttempts e (h @ loaded) = Inr offlineAttempts"
      and "offlineAttempts \<noteq> []"
      and "isOnline e (h @ loaded)"
      and "getUserAttempts e (h @ fetched) = Inr onlineAttempts"
      and "case find (\<lambda>a. attempt_id a = off_id (last offlineAttempts)) onlineAttempts of
             None \<Rightarrow> True
           | Some a \<Rightarrow> isAttemptFinished e (attempt_state a)"
      and "off_id (last offlineAttempts) \<noteq> 0"
  shows "performSyncQuiz e quiz askPreflight siteId h =
     (case settle e (h @ removal) of
        None \<Rightarrow>
          (Inr \<lparr>warnings = [instant e ''addon.mod_quiz.warningattemptfinished''],
                attemptFinished = False, updated = True\<rparr>,
           removal @ [CSetSyncTime (quiz_id quiz) site])
      | Some err \<Rightarrow> (Inl err, removal))"
  using assms
  by (simp add: performSyncQuiz_def finishSync_def promise_defs pop_def no_options_def
      truthy_boolean_def truthy_number_def Let_def split: option.splits)

theorem discard_stale_attempt_witness:
  "performSyncQuiz stale quiz7 None None [] =
     (Inr \<lparr>warnings = [''addon.mod_quiz.warningattemptfinished''],
           attemptFinished = False, updated = True\<rparr>,
      [CSyncActivity 7 ''site'', CGetQuizAttempts 7 ''site'', CGetUserAttempts 7 11 True ''site'',
       CInvalidateAllQuizData 7 3 (Some 20) ''site'', CRemoveAttemptAndAnswers 20 ''site'',
       CSetSyncTime 7 ''site''])"
  using discard_stale_attempt
    [where e = stale and h = "[]" and quiz = quiz7 and askPreflight = None and siteId = None
       and offlineAttempts = "[stored21\<lparr>off_id := 20\<rparr>]" and onlineAttempts = "site_attempts []"]
  by (simp add: stale_def demo_def quiz7_def stored21_def or_string_def site_attempts_def
      submitted_finish_def)

text \<open>
  The claim as stated fails in two ways. For an offline attempt whose identifier is 0 the
  sync resolves with one warning and \<open>updated\<close> true, and never asks the store to remove
  the attempt. And when the store rejects the removal, the sync rejects: it returns no
  result.
\<close>

theorem discard_counterexample:
  "performSyncQuiz unnumbered quiz7 None None [] =
     (Inr \<lparr>warnings = [''addon.mod_quiz.warningattemptfinished''],
           attemptFinished = False, updated = True\<rparr>,
      [CSyncActivity 7 ''site'', CGetQuizAttempts 7 ''site'', CGetUserAttempts 7 11 True ''site'',
       CInvalidateAllQuizData 7 3 (Some 0) ''site'', CSetSyncTime 7 ''site'']) \<and>
   performSyncQuiz failing_store quiz7 None None [] =
     (Inl (ServiceError ''database''),
      [CSyncActivity 7 ''site'', CGetQuizAttempts 7 ''site'', CGetUserAttempts 7 11 True ''site'',
       CInvalidateAllQuizData 7 3 (Some 20) ''site'', CRemoveAttemptAndAnswers 20 ''site''])"
  by code_simp

section \<open>The finish flag of the submission\<close>

text \<open>
  Claim C1. Whenever \<open>performSyncQuiz\<close> submits, that is, calls \<open>processAttempt\<close>, the
  store had an offline attempt, and the \<open>finish\<close> argument of the call is true exactly
  when that attempt is marked finished and the sync discarded no slot, that is, never
  asked the store to remove a question and its answers (\<open>validateQuestions\<close> does so for
  exactly the slots it drops, claim C2). So a slot that fails the validation makes the
  flag false even when the offline attempt is marked finished.
\<close>

theorem finish_flag_sent:
  fixes e quiz askPreflight siteId h
  defines "site \<equiv> or_string siteId (getCurrentSiteId e)"
  defines "loaded \<equiv> [CSyncActivity (quiz_id quiz) site, CGetQuizAttempts (quiz_id quiz) site]"
  assumes "CProcessAttempt q a ans pf fin s \<in> set (snd (performSyncQuiz e quiz askPreflight siteId h))"
  shows "\<exists>offlineAttempts.
           getQuizAttempts e (h @ loaded) = Inr offlineAttempts \<and> offlineAttempts \<noteq> [] \<and>
           fin = (finished (last offlineAttempts) \<noteq> 0 \<and>
                  (\<forall>x y z. CRemoveQuestionAndAnswers x y z
                             \<notin> set (snd (performSyncQuiz e quiz askPreflight siteId h))))"
proof -
  let ?c = "CProcessAttempt q a ans pf fin s"
  have sub: "is_submission ?c" and flag: "finish_flag ?c = fin"
    by (simp_all add: is_submission_def finish_flag_def)
  show ?thesis
  proof (cases rule: performSyncQuiz_paths [of e h quiz siteId askPreflight])
    case (unread err)
    with assms(3) show ?thesis by auto
  next
    case nothing
    with assms(3) sub finishSync_kind show ?thesis
      by (fastforce simp: appended_def)
  next
    case (offline offs)
    with assms(3) show ?thesis by auto
  next
    case (unfetched offs err)
    with assms(3) show ?thesis by auto
  next
    case (discard offs ons)
    with assms(3) sub finishSync_kind show ?thesis
      by (fastforce simp: appended_def)
  next
    case (unanswered offs ons on err)
    with assms(3) show ?thesis by auto
  next
    case (empty offs ons on)
    with assms(3) sub finishSync_kind show ?thesis
      by (fastforce simp: appended_def)
  next
    case (send offs ons on answersList)
    let ?pre = "[CSyncActivity (quiz_id quiz) site, CGetQuizAttempts (quiz_id quiz) site,
       CGetUserAttempts (quiz_id quiz) (coursemodule quiz) True site,
       CGetAttemptAnswers (off_id (last offs)) site]"
    let ?send = "performSyncQuiz_send e quiz askPreflight site (last offs) on
       (Some (attempt_id (last ons)))
       (classifyAnswersInQuestions e (convertAnswersArrayToObject e answersList)) (h @ ?pre)"
    from send(9) have calls: "snd (performSyncQuiz e quiz askPreflight siteId h) = ?pre @ snd ?send"
      by (simp add: appended_def site_def)
    with assms(3) have "?c \<in> set (snd ?send)"
      by auto
    then have "fin = (finished (last offs) \<noteq> 0 \<and> \<not> list_ex is_slot_removal (snd ?send))"
      using send_submission [OF _ sub] flag by blast
    moreover have "list_ex is_slot_removal (snd ?send) \<longleftrightarrow>
        (\<exists>x y z. CRemoveQuestionAndAnswers x y z
           \<in> set (snd (performSyncQuiz e quiz askPreflight siteId h)))"
      by (auto simp: calls list_ex_slot_removal)
    ultimately show ?thesis
      using send(1,2) by (auto simp: site_def loaded_def)
  qed
qed

theorem finish_flag_sent_witness:
  "CProcessAttempt 7 21 [] [] False ''site'' \<in> set (snd (performSyncQuiz moved quiz7 None None [])) \<and>
   (\<exists>offlineAttempts.
      getQuizAttempts moved [CSyncActivity 7 ''site'', CGetQuizAttempts 7 ''site''] = Inr offlineAttempts \<and>
      offlineAttempts \<noteq> [] \<and>
      False = (finished (last offlineAttempts) \<noteq> 0 \<and>
               (\<forall>x y z. CRemoveQuestionAndAnswers x y z
                          \<notin> set (snd (performSyncQuiz moved quiz7 None None [])))))"
proof -
  have run: "snd (performSyncQuiz moved quiz7 None None []) =
     [CSyncActivity 7 ''site'', CGetQuizAttempts 7 ''site'', CGetUserAttempts 7 11 True ''site'',
      CGetAttemptAnswers 21 ''site'', CGetQuizAccessInformation 7 ''site'',
      CGetPreflightData 7 [] 21 None ''site'', CGetAllQuestionsData 7 21 [] [0] ''site'',
      CRemoveQuestionAndAnswers 21 5 (Some ''site''), CProcessAttempt 7 21 [] [] False ''site'',
      CLogViewAttempt 21 2 [] ''site'', CInvalidateAllQuizData 7 3 (Some 21) ''site'',
      CRemoveAttemptAndAnswers 21 ''site'', CDeleteOfflineData (question5 4) 11 ''site'',
      CGetModuleBasicInfoByInstance 7 ''site'', CGetModuleUpdates 11 3 (Some ''site''),
      CSetStatusAfterPrefetch 7 11 False (Some ''site''), CSetSyncTime 7 ''site'',
      CGetUserAttempts 7 11 False ''site'']"
    by code_simp
  then have sub: "CProcessAttempt 7 21 [] [] False ''site''
      \<in> set (snd (performSyncQuiz moved quiz7 None None []))"
    by simp
  from finish_flag_sent [OF sub] sub show ?thesis
    by (simp add: moved_def demo_def quiz7_def or_string_def)
qed

section \<open>The identifier given to finishSync\<close>

lemma accepted_then_none:
  assumes "\<forall>x \<in> set cs. \<not> is_submission x"
  shows "accepted_then e req h cs"
  using assms by (auto simp: accepted_then_def)

lemma accepted_then_left:
  assumes free: "\<forall>a \<in> set A. \<not> is_submission a"
      and rest: "accepted_then e req (h @ A) B"
  shows "accepted_then e req h (A @ B)"
  unfolding accepted_then_def
proof (intro allI impI)
  fix pre x post
  assume a: "A @ B = pre @ x # post \<and> is_submission x \<and> settle e (h @ pre @ [x]) = None"
  with free have "x \<notin> set A"
    by blast
  with a obtain us where us: "pre = A @ us" "B = us @ x # post"
    by (blast elim: split_after)
  with a have "settle e ((h @ A) @ us @ [x]) = None"
    by simp
  with rest us(2) a show "set req \<subseteq> set post"
    unfolding accepted_then_def by blast
qed

lemma accepted_then_first:
  assumes "is_submission x"
      and "\<forall>b \<in> set rest. \<not> is_submission b"
      and "settle e (h @ [x]) = None \<Longrightarrow> set req \<subseteq> set rest"
  shows "accepted_then e req h (x # rest)"
  unfolding accepted_then_def
proof (intro allI impI)
  fix pre y post
  assume a: "x # rest = pre @ y # post \<and> is_submission y \<and> settle e (h @ pre @ [y]) = None"
  then have "pre = []"
    using assms(2) by (cases pre) auto
  with a assms(3) show "set req \<subseteq> set post"
    by simp
qed

lemma finalizing_free:
  "only_calls (\<lambda>c. \<not> is_submission c) p \<Longrightarrow> finalizing e req p"
  by (auto simp: finalizing_def only_calls_def intro!: accepted_then_none)

lemma finalizing_await:
  assumes "only_calls (\<lambda>c. \<not> is_submission c) p"
      and "\<And>x. finalizing e req (f x)"
  shows "finalizing e req (await p f)"
  unfolding finalizing_def
proof
  fix h
  have free: "\<forall>a \<in> set (snd (p h)). \<not> is_submission a"
    using assms(1) by (auto simp: only_calls_def)
  show "accepted_then e req h (snd (await p f h))"
  proof (cases "fst (p h)")
    case (Inl err)
    with free show ?thesis
      by (simp add: await_calls accepted_then_none)
  next
    case (Inr x)
    have "accepted_then e req h (snd (p h) @ snd (f x (h @ snd (p h))))"
      using free assms(2) [of x] by (intro accepted_then_left) (simp_all add: finalizing_def)
    with Inr show ?thesis
      by (simp add: await_calls)
  qed
qed

lemma finalizing_cond:
  "finalizing e req p \<Longrightarrow> finalizing e req p'
     \<Longrightarrow> finalizing e req (\<lambda>h. if b h then p h else p' h)"
  by (simp add: finalizing_def)

lemma finishSync_finalization:
  assumes "opt_removeAttempt options = Some True"
  shows "set (finalization siteId quiz (opt_attemptId options))
     \<subseteq> set (snd (finishSync e siteId quiz (course quiz) warns options h))"
  using assms finishSync_invalidates [of quiz "course quiz" options siteId e warns h]
    finishSync_removes [of options _ siteId e quiz "course quiz" warns h]
  by (auto simp: finalization_def split: option.splits)

lemma finishSync_only_submission_free:
  "only_calls (\<lambda>c. \<not> is_submission c) (finishSync e siteId quiz courseId warns options)"
  using finishSync_kind by (auto simp: only_calls_def)

lemma submit_finalizing:
  "finalizing e (finalization siteId quiz lastId)
     (performSyncQuiz_submit e quiz siteId off on lastId pf onQs d v)"
  unfolding performSyncQuiz_submit_def Let_def
proof (rule finalizing_await)
  show "only_calls (\<lambda>c. \<not> is_submission c)
     (promise_all (map (prepareQuestion e quiz siteId onQs v) (object_keys v)))"
    by (auto intro!: only_calls_promise_all only_calls_mono [OF prepareQuestion_only_calls]
        simp: is_submission_def)
next
  fix changes
  let ?prepared = "fold (\<lambda>change obj. change obj) changes v"
  let ?finish = "finished off \<noteq> 0 \<and> \<not> d"
  let ?c = "CProcessAttempt (quiz_id quiz) (attempt_id on)
     (extractAnswersFromQuestions e ?prepared) pf ?finish siteId"
  let ?options = "no_options\<lparr>opt_attemptId := lastId, opt_offlineAttempt := Some off,
     opt_onlineAttempt := Some on, opt_removeAttempt := Some True, opt_updated := Some True,
     opt_onlineQuestions := Some onQs\<rparr>"
  let ?k = "\<lambda>warns. await (if \<not> ?finish
             then ignoreErrors (perform e (CLogViewAttempt (attempt_id on)
                                            (currentpage off) pf siteId))
             else resolve None)
        (\<lambda>_. finishSync e siteId quiz (course quiz) warns ?options)"
  have k_free: "\<forall>b \<in> set (snd (?k warns h)). \<not> is_submission b" for warns h
  proof -
    have "only_calls (\<lambda>c. \<not> is_submission c) (?k warns)"
    proof (rule only_calls_await)
      show "only_calls (\<lambda>c. \<not> is_submission c)
         (if \<not> ?finish
          then ignoreErrors (perform e (CLogViewAttempt (attempt_id on) (currentpage off) pf siteId))
          else resolve None)"
        by (auto intro!: only_calls_intros simp: is_submission_def)
    qed (rule finishSync_only_submission_free)
    then show ?thesis
      by (simp add: only_calls_def)
  qed
  have k_req: "set (finalization siteId quiz lastId) \<subseteq> set (snd (?k warns h))" for warns h
    using finishSync_finalization [of ?options siteId quiz e warns]
    by (auto simp: run_simps split: sum.splits)
  show "finalizing e (finalization siteId quiz lastId)
     (await (perform e ?c)
        (\<lambda>_. await (if \<not> ?finish
                     then ignoreErrors (perform e (CLogViewAttempt (attempt_id on)
                                                    (currentpage off) pf siteId))
                     else resolve None)
           (\<lambda>_. finishSync e siteId quiz (course quiz)
              (if d then if finished off \<noteq> 0
                         then [instant e ''addon.mod_quiz.warningdatadiscardedfromfinished'']
                         else [instant e ''addon.mod_quiz.warningdatadiscarded'']
               else []) ?options)))"
    unfolding finalizing_def
  proof
    fix h
    show "accepted_then e (finalization siteId quiz lastId) h
       (snd (await (perform e ?c)
          (\<lambda>_. await (if \<not> ?finish
                       then ignoreErrors (perform e (CLogViewAttempt (attempt_id on)
                                                      (currentpage off) pf siteId))
                       else resolve None)
             (\<lambda>_. finishSync e siteId quiz (course quiz)
                (if d then if finished off \<noteq> 0
                           then [instant e ''addon.mod_quiz.warningdatadiscardedfromfinished'']
                           else [instant e ''addon.mod_quiz.warningdatadiscarded'']
                 else []) ?options)) h))"
    proof (cases "settle e (h @ [?c])")
      case None
      then show ?thesis
        using k_free k_req
        by (simp add: await_calls perform_calls perform_result accepted_then_first
            is_submission_def)
    next
      case (Some err)
      have "accepted_then e (finalization siteId quiz lastId) h [?c]"
        by (rule accepted_then_first) (use Some in \<open>simp_all add: is_submission_def\<close>)
      with Some show ?thesis
        by (simp add: await_calls perform_calls perform_result)
    qed
  qed
qed

lemma send_finalizing:
  "finalizing e (finalization siteId quiz lastId)
     (performSyncQuiz_send e quiz ask siteId off on lastId offQs)"
  unfolding performSyncQuiz_send_def
  apply (rule finalizing_await)
  subgoal by (auto intro!: only_calls_intros simp: is_submission_def)
  apply (rule finalizing_await)
  subgoal by (auto intro!: only_calls_intros simp: is_submission_def)
  apply (rule finalizing_await)
  subgoal by (auto intro!: only_calls_intros simp: is_submission_def)
  apply (rule finalizing_await)
  subgoal
    by (auto intro!: only_calls_mono [OF validateQuestions_only_calls] simp: is_submission_def)
  apply (simp add: split_def submit_finalizing)
  done

lemma send_slot_removals:
  "only_calls (\<lambda>c. \<forall>x slot s. c = CRemoveQuestionAndAnswers x slot s \<longrightarrow> x = attempt_id on)
     (performSyncQuiz_send e quiz ask siteId off on lastId offQs)"
  unfolding performSyncQuiz_send_def
  apply (intro only_calls_await only_calls_request)
      apply simp
     apply simp
    apply simp
   apply (auto simp: only_calls_def validateQuestions_calls)[1]
  apply (auto simp: split_def intro!: only_calls_mono [OF submit_only_calls]
      dest: submit_call_kind(1) simp: is_slot_removal_def)
  done

text \<open>
  Claim C10, as amended. The store has an offline attempt, the device is online and the
  site lists its attempts. The sync discards when no listed attempt has the identifier of
  the offline attempt (\<open>own\<close>) or the one that has it is finished; otherwise it goes on
  to the stored answers. \<open>passed\<close> is the identifier given to \<open>finishSync\<close>:
  \<open>own\<close> when the sync discards, and otherwise, with no stored answers as well as after
  a submission, the identifier of the last listed attempt (\<open>latest\<close>). Every
  invalidation the sync makes and every removal of an attempt and its answers it asks of
  the store is for \<open>passed\<close>; so outside the discard path the store is asked to remove
  the offline attempt with its answers only when it is the last listed attempt. The
  invalidation and, \<open>passed\<close> being non-zero, the removal are made when the sync
  discards, when there are no stored answers, and after every submission that resolves.
  The claim is amended in one point: the answers of the slots that the validation drops are
  removed from the store for \<open>own\<close>, whichever attempt is the last.
\<close>

theorem finalization_attempt_id:
  fixes e quiz askPreflight siteId h offlineAttempts onlineAttempts
  defines "site \<equiv> or_string siteId (getCurrentSiteId e)"
  defines "loaded \<equiv> [CSyncActivity (quiz_id quiz) site, CGetQuizAttempts (quiz_id quiz) site]"
  defines "fetched \<equiv> loaded @ [CGetUserAttempts (quiz_id quiz) (coursemodule quiz) True site]"
  defines "calls \<equiv> snd (performSyncQuiz e quiz askPreflight siteId h)"
  defines "own \<equiv> off_id (last offlineAttempts)"
  defines "latest \<equiv> attempt_id (last onlineAttempts)"
  defines "discards \<equiv>
     (case find (\<lambda>a. attempt_id a = own) onlineAttempts of
        None \<Rightarrow> True
      | Some a \<Rightarrow> isAttemptFinished e (attempt_state a))"
  defines "passed \<equiv> (if discards then own else latest)"
  assumes "getQuizAttempts e (h @ loaded) = Inr offlineAttempts"
      and "offlineAttempts \<noteq> []"
      and "isOnline e (h @ loaded)"
      and "getUserAttempts e (h @ fetched) = Inr onlineAttempts"
  shows "(\<forall>q c x s. CInvalidateAllQuizData q c x s \<in> set calls \<longrightarrow> x = Some passed) \<and>
         (\<forall>x s. CRemoveAttemptAndAnswers x s \<in> set calls \<longrightarrow> x = passed) \<and>
         (\<forall>x slot s. CRemoveQuestionAndAnswers x slot s \<in> set calls \<longrightarrow> x = own \<and> \<not> discards) \<and>
         (discards \<or> getAttemptAnswers e (h @ fetched @ [CGetAttemptAnswers own site]) = Inr [] \<longrightarrow>
            CInvalidateAllQuizData (quiz_id quiz) (course quiz) (Some passed) site \<in> set calls \<and>
            (passed \<noteq> 0 \<longrightarrow> CRemoveAttemptAndAnswers passed site \<in> set calls)) \<and>
         (\<forall>pre c post.
            calls = pre @ c # post \<and> is_submission c \<and> settle e (h @ pre @ [c]) = None \<longrightarrow>
            \<not> discards \<and>
            CInvalidateAllQuizData (quiz_id quiz) (course quiz) (Some latest) site \<in> set post \<and>
            (latest \<noteq> 0 \<longrightarrow> CRemoveAttemptAndAnswers latest site \<in> set post))"
proof (cases rule: performSyncQuiz_paths [of e h quiz siteId askPreflight])
  case (unread err)
  with assms(9) show ?thesis by (simp add: loaded_def site_def)
next
  case nothing
  with assms(9,10) show ?thesis by (simp add: loaded_def site_def)
next
  case (offline offs)
  with assms(11) show ?thesis by (simp add: loaded_def site_def)
next
  case (unfetched offs err)
  with assms(12) show ?thesis by (simp add: loaded_def fetched_def site_def)
next
  case (discard offs ons)
  from discard(1) assms(9) have offs: "offs = offlineAttempts"
    by (simp add: loaded_def site_def)
  from discard(4) assms(12) have ons: "ons = onlineAttempts"
    by (simp add: loaded_def fetched_def site_def)
  from discard(5) have discards: discards
    by (simp add: discards_def own_def offs ons)
  then have passed: "passed = own"
    by (simp add: passed_def)
  let ?options = "no_options\<lparr>opt_attemptId := Some own, opt_offlineAttempt := Some (last offs),
     opt_onlineAttempt := find (\<lambda>a. attempt_id a = off_id (last offs)) ons,
     opt_removeAttempt := Some True\<rparr>"
  let ?fin = "finishSync e site quiz (course quiz)
     [instant e ''addon.mod_quiz.warningattemptfinished''] ?options (h @ fetched)"
  have run: "performSyncQuiz e quiz askPreflight siteId h = appended fetched ?fin"
    using discard(6) by (simp add: own_def offs fetched_def loaded_def site_def)
  have only: "\<forall>c \<in> set (snd ?fin). finish_call site quiz (course quiz) (Some own) c"
    using finishSync_only_calls [of site quiz "course quiz" ?options e]
    by (simp add: only_calls_def)
  have kind: "\<forall>c \<in> set calls. \<not> is_submission c \<and> \<not> is_slot_removal c"
    using finishSync_kind [of _ e site quiz "course quiz" _ ?options "h @ fetched"]
    by (auto simp: calls_def run appended_def fetched_def loaded_def is_submission_def
        is_slot_removal_def)
  have inv: "CInvalidateAllQuizData (quiz_id quiz) (course quiz) (Some own) site \<in> set (snd ?fin)"
    using finishSync_invalidates [of quiz "course quiz" ?options site e] by simp
  have rem: "own \<noteq> 0 \<Longrightarrow> CRemoveAttemptAndAnswers own site \<in> set (snd ?fin)"
    using finishSync_removes [of ?options own site e quiz "course quiz"] by simp
  have inv_id: "x = Some own" if "CInvalidateAllQuizData q c x s \<in> set (snd ?fin)" for q c x s
    using that only finish_call_ids by blast
  have rem_id: "x = own" if "CRemoveAttemptAndAnswers x s \<in> set (snd ?fin)" for x s
    using that only finish_call_ids by blast
  have no_slot: "CRemoveQuestionAndAnswers x slot s \<notin> set calls" for x slot s
    using kind by (auto simp: is_slot_removal_def)
  have no_sub: "\<not> (calls = pre @ c # post \<and> is_submission c)" for pre c post
    using kind by auto
  show ?thesis
    using inv rem inv_id rem_id no_slot no_sub discards
    by (auto simp: calls_def run appended_def passed fetched_def loaded_def)
next
  case (unanswered offs ons on err)
  from unanswered(1) assms(9) have offs: "offs = offlineAttempts"
    by (simp add: loaded_def site_def)
  from unanswered(4) assms(12) have ons: "ons = onlineAttempts"
    by (simp add: loaded_def fetched_def site_def)
  from unanswered(5,6) have discards: "\<not> discards"
    by (simp add: discards_def own_def offs ons)
  have calls: "calls = fetched @ [CGetAttemptAnswers own site]"
    using unanswered(8) by (simp add: calls_def own_def offs fetched_def loaded_def site_def)
  have answers: "getAttemptAnswers e (h @ fetched @ [CGetAttemptAnswers own site]) = Inl err"
    using unanswered(7) by (simp add: own_def offs fetched_def loaded_def site_def)
  have no_sub: "\<not> (calls = pre @ c # post \<and> is_submission c)" for pre c post
    by (auto simp: calls fetched_def loaded_def is_submission_def Cons_eq_append_conv
        append_eq_Cons_conv)
  show ?thesis
    using discards answers no_sub
    by (auto simp: calls fetched_def loaded_def)
next
  case (empty offs ons on)
  from empty(1) assms(9) have offs: "offs = offlineAttempts"
    by (simp add: loaded_def site_def)
  from empty(4) assms(12) have ons: "ons = onlineAttempts"
    by (simp add: loaded_def fetched_def site_def)
  from empty(5,6) have discards: "\<not> discards"
    by (simp add: discards_def own_def offs ons)
  then have passed: "passed = attempt_id (last ons)"
    by (simp add: passed_def latest_def ons)
  let ?answered = "fetched @ [CGetAttemptAnswers (off_id (last offs)) site]"
  let ?options = "no_options\<lparr>opt_attemptId := Some passed, opt_offlineAttempt := Some (last offs),
     opt_onlineAttempt := Some on, opt_removeAttempt := Some True\<rparr>"
  let ?fin = "finishSync e site quiz (course quiz) [] ?options (h @ ?answered)"
  have run: "performSyncQuiz e quiz askPreflight siteId h = appended ?answered ?fin"
    using empty(8) by (simp add: passed fetched_def loaded_def site_def)
  have only: "\<forall>c \<in> set (snd ?fin). finish_call site quiz (course quiz) (Some passed) c"
    using finishSync_only_calls [of site quiz "course quiz" ?options e]
    by (simp add: only_calls_def)
  have kind: "\<forall>c \<in> set calls. \<not> is_submission c \<and> \<not> is_slot_removal c"
    using finishSync_kind [of _ e site quiz "course quiz" _ ?options "h @ ?answered"]
    by (auto simp: calls_def run appended_def fetched_def loaded_def is_submission_def
        is_slot_removal_def)
  have inv: "CInvalidateAllQuizData (quiz_id quiz) (course quiz) (Some passed) site \<in> set (snd ?fin)"
    using finishSync_invalidates [of quiz "course quiz" ?options site e] by simp
  have rem: "passed \<noteq> 0 \<Longrightarrow> CRemoveAttemptAndAnswers passed site \<in> set (snd ?fin)"
    using finishSync_removes [of ?options passed site e quiz "course quiz"] by simp
  have inv_id: "x = Some passed" if "CInvalidateAllQuizData q c x s \<in> set (snd ?fin)" for q c x s
    using that only finish_call_ids by blast
  have rem_id: "x = passed" if "CRemoveAttemptAndAnswers x s \<in> set (snd ?fin)" for x s
    using that only finish_call_ids by blast
  have no_slot: "CRemoveQuestionAndAnswers x slot s \<notin> set calls" for x slot s
    using kind by (auto simp: is_slot_removal_def)
  have no_sub: "\<not> (calls = pre @ c # post \<and> is_submission c)" for pre c post
    using kind by auto
  show ?thesis
    using inv rem inv_id rem_id no_slot no_sub discards
    by (auto simp: calls_def run appended_def fetched_def loaded_def)
next
  case (send offs ons on answersList)
  from send(1) assms(9) have offs: "offs = offlineAttempts"
    by (simp add: loaded_def site_def)
  from send(4) assms(12) have ons: "ons = onlineAttempts"
    by (simp add: loaded_def fetched_def site_def)
  from send(5,6) have discards: "\<not> discards"
    by (simp add: discards_def own_def offs ons)
  then have passed: "passed = latest"
    by (simp add: passed_def)
  have latest: "latest = attempt_id (last ons)"
    by (simp add: latest_def ons)
  from send(5) have on: "attempt_id on = own"
    by (auto simp: find_Some_iff own_def offs)
  let ?answered = "fetched @ [CGetAttemptAnswers (off_id (last offs)) site]"
  let ?send = "performSyncQuiz_send e quiz askPreflight site (last offs) on (Some latest)
     (classifyAnswersInQuestions e (convertAnswersArrayToObject e answersList)) (h @ ?answered)"
  have run: "performSyncQuiz e quiz askPreflight siteId h = appended ?answered ?send"
    using send(9) by (simp add: latest fetched_def loaded_def site_def)
  have calls: "calls = ?answered @ snd ?send"
    by (simp add: calls_def run appended_def)
  have only: "\<forall>c \<in> set (snd ?send). send_call quiz site (Some latest) c"
    using send_only_calls [of quiz site "Some latest" e askPreflight "last offs" on]
    by (simp add: only_calls_def)
  have inv_id: "x = Some latest" if "CInvalidateAllQuizData q c x s \<in> set (snd ?send)" for q c x s
    using that only send_call_ids by blast
  have rem_id: "x = latest" if "CRemoveAttemptAndAnswers x s \<in> set (snd ?send)" for x s
    using that only send_call_ids by blast
  have slot_id: "x = own" if "CRemoveQuestionAndAnswers x slot s \<in> set (snd ?send)" for x slot s
    using that only_callsD [OF send_slot_removals, of _ e quiz askPreflight site "last offs" on]
    by (auto simp: on)
  have answers: "getAttemptAnswers e (h @ fetched @ [CGetAttemptAnswers own site]) \<noteq> Inr []"
    using send(7,8) by (simp add: own_def offs fetched_def loaded_def site_def)
  have "accepted_then e (finalization site quiz (Some latest)) h (?answered @ snd ?send)"
  proof (rule accepted_then_left)
    show "\<forall>a \<in> set ?answered. \<not> is_submission a"
      by (simp add: fetched_def loaded_def is_submission_def)
    show "accepted_then e (finalization site quiz (Some latest)) (h @ ?answered) (snd ?send)"
      using send_finalizing [of e site quiz "Some latest" askPreflight "last offs" on]
      by (simp add: finalizing_def)
  qed
  then have accepted: "CInvalidateAllQuizData (quiz_id quiz) (course quiz) (Some latest) site \<in> set post \<and>
      (latest \<noteq> 0 \<longrightarrow> CRemoveAttemptAndAnswers latest site \<in> set post)"
    if "calls = pre @ c # post" "is_submission c" "settle e (h @ pre @ [c]) = None" for pre c post
    using that unfolding accepted_then_def calls [symmetric]
    by (fastforce simp: finalization_def)
  show ?thesis
    using inv_id rem_id slot_id answers accepted discards
    by (auto simp: calls passed fetched_def loaded_def)
qed

theorem finalization_attempt_id_witness:
  "CInvalidateAllQuizData 7 3 (Some 22) ''site''
     \<in> set (snd (performSyncQuiz superseded quiz7 None None [])) \<and>
   CRemoveAttemptAndAnswers 22 ''site'' \<in> set (snd (performSyncQuiz superseded quiz7 None None [])) \<and>
   CRemoveAttemptAndAnswers 21 ''site'' \<notin> set (snd (performSyncQuiz superseded quiz7 None None []))"
proof -
  let ?pre = "[CSyncActivity 7 ''site'', CGetQuizAttempts 7 ''site'',
     CGetUserAttempts 7 11 True ''site'', CGetAttemptAnswers 21 ''site'',
     CGetQuizAccessInformation 7 ''site'', CGetPreflightData 7 [] 21 None ''site'',
     CGetAllQuestionsData 7 21 [] [0] ''site'',
     CPrepareSyncData (question5 3) [('':sequencecheck'', ''3''), (''answer'', ''42'')] 11 ''site'']"
  let ?sub = "CProcessAttempt 7 21 [('':sequencecheck'', ''3''), (''answer'', ''42'')] [] True ''site''"
  let ?post = "[CInvalidateAllQuizData 7 3 (Some 22) ''site'', CRemoveAttemptAndAnswers 22 ''site'',
     CDeleteOfflineData (question5 3) 11 ''site'', CGetModuleBasicInfoByInstance 7 ''site'',
     CGetModuleUpdates 11 3 (Some ''site''), CSetStatusAfterPrefetch 7 11 False (Some ''site''),
     CSetSyncTime 7 ''site'', CGetUserAttempts 7 11 False ''site'']"
  let ?attempts = "[\<lparr>attempt_id = 21, attempt_state = ''inprogress'', layout = Some ''5,0''\<rparr>,
     \<lparr>attempt_id = 22, attempt_state = ''inprogress'', layout = Some ''5,0''\<rparr>]"
  have run: "snd (performSyncQuiz superseded quiz7 None None []) = ?pre @ ?sub # ?post"
    by code_simp
  have stored: "getQuizAttempts superseded hh = Inr [stored21]" for hh
    by (simp add: superseded_def demo_def)
  have online: "isOnline superseded hh" for hh
    by (simp add: superseded_def demo_def)
  have site: "getUserAttempts superseded hh = Inr ?attempts" for hh
    by (simp add: superseded_def)
  have accepted: "settle superseded hh = None" for hh
    by (simp add: superseded_def demo_def)
  note facts = finalization_attempt_id
    [where e = superseded and h = "[]" and quiz = quiz7 and askPreflight = None and siteId = None,
      OF stored _ online site]
  have facts': "(\<forall>x s. CRemoveAttemptAndAnswers x s
        \<in> set (snd (performSyncQuiz superseded quiz7 None None [])) \<longrightarrow> x = 22) \<and>
      (\<forall>pre c post.
         snd (performSyncQuiz superseded quiz7 None None []) = pre @ c # post \<and> is_submission c \<longrightarrow>
         CInvalidateAllQuizData 7 3 (Some 22) ''site'' \<in> set post \<and>
         CRemoveAttemptAndAnswers 22 ''site'' \<in> set post)"
  proof -
    have finished: "isAttemptFinished superseded s = (s = ''finished'' \<or> s = ''abandoned'')" for s
      by (simp add: superseded_def demo_def)
    have current: "or_string None (getCurrentSiteId superseded) = ''site''"
      by (simp add: superseded_def demo_def or_string_def)
    have ids: "off_id stored21 = 21" "quiz_id quiz7 = 7" "course quiz7 = 3"
      by (simp_all add: stored21_def quiz7_def)
    from facts accepted show ?thesis
      by (simp add: finished current ids) blast
  qed
  then have "CInvalidateAllQuizData 7 3 (Some 22) ''site'' \<in> set ?post \<and>
      CRemoveAttemptAndAnswers 22 ''site'' \<in> set ?post"
    using run by (simp add: is_submission_def)
  moreover from facts' have "CRemoveAttemptAndAnswers 21 ''site''
      \<notin> set (snd (performSyncQuiz superseded quiz7 None None []))"
    by fastforce
  ultimately show ?thesis
    by (simp add: run)
qed

text \<open>
  The claim as stated fails when the validation drops a slot: the site has a later attempt,
  22, so the offline attempt 21 is not the most recent attempt and is not removed, and yet
  its answers for slot 5 are removed from the store.
\<close>

theorem finalization_counterexample:
  "performSyncQuiz superseded_moved quiz7 None None [] =
     (Inr \<lparr>warnings = [''addon.mod_quiz.warningdatadiscardedfromfinished''],
           attemptFinished = False, updated = True\<rparr>,
      [CSyncActivity 7 ''site'', CGetQuizAttempts 7 ''site'', CGetUserAttempts 7 11 True ''site'',
       CGetAttemptAnswers 21 ''site'', CGetQuizAccessInformation 7 ''site'',
       CGetPreflightData 7 [] 21 None ''site'', CGetAllQuestionsData 7 21 [] [0] ''site'',
       CRemoveQuestionAndAnswers 21 5 (Some ''site''), CProcessAttempt 7 21 [] [] False ''site'',
       CLogViewAttempt 21 2 [] ''site'', CInvalidateAllQuizData 7 3 (Some 22) ''site'',
       CRemoveAttemptAndAnswers 22 ''site'', CDeleteOfflineData (question5 4) 11 ''site'',
       CGetModuleBasicInfoByInstance 7 ''site'', CGetModuleUpdates 11 3 (Some ''site''),
       CSetStatusAfterPrefetch 7 11 False (Some ''site''), CSetSyncTime 7 ''site'',
       CGetUserAttempts 7 11 False ''site''])"
  by code_simp

section \<open>prefetchAfterUpdateQuiz\<close>




lemma update_call_check [simp]: "update_call (CGetModuleUpdates m c s)"
  by (simp add: update_call_def)

lemma update_call_download [simp]: "update_call (CDownload m c)"
  by (simp add: update_call_def)






















section \<open>syncAllQuizzesFunc\<close>

lemma syncQuiz_no_event:
  "only_calls no_event (syncQuiz e quiz askPreflight siteId)"
  using performSyncQuiz_no_event
  by (auto simp: only_calls_def syncQuiz_def reject_def Let_def split: option.splits)

lemma syncQuizForcedOrIfNeeded_no_event:
  "only_calls no_event (syncQuizForcedOrIfNeeded e force siteId quiz)"
  unfolding syncQuizForcedOrIfNeeded_def syncQuizIfNeeded_def
  by (auto intro!: only_calls_intros syncQuiz_no_event simp: no_event_def)

lemma syncAttempt_run:
  fixes e force siteId attempt h quiz
  defines "fetch \<equiv> CGetQuizById (off_courseid attempt) (off_quizid attempt) siteId"
  defines "S \<equiv> syncQuizForcedOrIfNeeded e force siteId quiz (h @ [fetch])"
  assumes "\<not> isBlocked e h (off_quizid attempt) siteId"
      and "getQuizById e (h @ [fetch]) = Inr quiz"
  shows "syncAttempt e force siteId attempt h =
     (case fst S of
        Inl err \<Rightarrow> (Inl err, fetch # snd S)
      | Inr None \<Rightarrow> (Inr (), fetch # snd S)
      | Inr (Some d) \<Rightarrow>
          if warnings d = []
          then (Inr (), fetch # snd S @ [CTrigger (quiz_id quiz) (attemptFinished d) [] siteId])
          else
            (case settle e (h @ fetch # snd S @
                              [CSetSyncWarnings (quiz_id quiz) (warnings d) siteId]) of
               None \<Rightarrow>
                 (Inr (), fetch # snd S @
                    [CSetSyncWarnings (quiz_id quiz) (warnings d) siteId,
                     CTrigger (quiz_id quiz) (attemptFinished d) (warnings d) siteId])
             | Some err \<Rightarrow>
                 (Inl err, fetch # snd S @
                    [CSetSyncWarnings (quiz_id quiz) (warnings d) siteId])))"
  using assms(3,4)
  by (simp add: syncAttempt_def prod_eq_iff run_simps trigger_def fetch_def S_def
      split: sum.splits option.splits)

text \<open>
  Claim C7, as amended. The callback of \<open>syncAllQuizzesFunc\<close> for an attempt emits the
  event \<open>AUTO_SYNCED\<close> exactly when the quiz is not blocked, the quiz was fetched, its
  sync (forced, or found needed) resolved with a result, and the warnings of the result,
  if any, were stored; the event carries the identifier of the quiz, \<open>attemptFinished\<close>
  and the warnings of the result. Whether the result says \<open>updated\<close> does not matter.
\<close>

theorem auto_synced_event:
  fixes e force siteId attempt h
  defines "fetch \<equiv> CGetQuizById (off_courseid attempt) (off_quizid attempt) siteId"
  shows "CTrigger q f w s \<in> set (snd (syncAttempt e force siteId attempt h)) \<longleftrightarrow>
     \<not> isBlocked e h (off_quizid attempt) siteId \<and>
     (\<exists>quiz d.
        getQuizById e (h @ [fetch]) = Inr quiz \<and>
        fst (syncQuizForcedOrIfNeeded e force siteId quiz (h @ [fetch])) = Inr (Some d) \<and>
        (warnings d = [] \<or>
         settle e (h @ fetch # snd (syncQuizForcedOrIfNeeded e force siteId quiz (h @ [fetch])) @
                     [CSetSyncWarnings (quiz_id quiz) (warnings d) siteId]) = None) \<and>
        q = quiz_id quiz \<and> f = attemptFinished d \<and> w = warnings d \<and> s = siteId)"
proof (cases "isBlocked e h (off_quizid attempt) siteId")
  case True
  then show ?thesis
    by (simp add: syncAttempt_def resolve_def)
next
  case free: False
  show ?thesis
  proof (cases "getQuizById e (h @ [fetch])")
    case (Inl err)
    with free show ?thesis
      by (simp add: syncAttempt_def run_simps fetch_def)
  next
    case (Inr quiz)
    let ?S = "syncQuizForcedOrIfNeeded e force siteId quiz (h @ [fetch])"
    have quiet: "CTrigger q f w s \<notin> set (snd ?S)"
    proof
      assume "CTrigger q f w s \<in> set (snd ?S)"
      then have "no_event (CTrigger q f w s)"
        by (rule only_callsD [OF syncQuizForcedOrIfNeeded_no_event])
      then show False
        unfolding no_event_def by blast
    qed
    have quiz: "getQuizById e
        (h @ [CGetQuizById (off_courseid attempt) (off_quizid attempt) siteId]) = Inr quiz"
      using Inr by (simp add: fetch_def)
    show ?thesis
      using quiet free
      by (auto simp: syncAttempt_run [OF free quiz] quiz fetch_def
          split: sum.splits option.splits)
  qed
qed

theorem auto_synced_event_witness:
  "CTrigger 7 False [''addon.mod_quiz.warningdatadiscardedfromfinished''] ''site''
     \<in> set (snd (syncAttempt moved True ''site'' stored21 [CGetAllAttempts ''site'']))"
proof -
  let ?d = "\<lparr>warnings = [''addon.mod_quiz.warningdatadiscardedfromfinished''],
             attemptFinished = False, updated = True\<rparr>"
  have free: "\<not> isBlocked moved [CGetAllAttempts ''site''] (off_quizid stored21) ''site''"
    by code_simp
  have quiz: "getQuizById moved
      ([CGetAllAttempts ''site''] @
       [CGetQuizById (off_courseid stored21) (off_quizid stored21) ''site'']) = Inr quiz7"
    by code_simp
  have sync: "fst (syncQuizForcedOrIfNeeded moved True ''site'' quiz7
      ([CGetAllAttempts ''site''] @
       [CGetQuizById (off_courseid stored21) (off_quizid stored21) ''site''])) = Inr (Some ?d)"
    by code_simp
  have stored: "settle moved h = None" for h
    by (simp add: moved_def demo_def)
  have carried: "7 = quiz_id quiz7"
    by (simp add: quiz7_def)
  show ?thesis
    apply (rule iffD2 [OF auto_synced_event])
    apply (rule conjI [OF free])
    apply (rule exI [of _ quiz7])
    apply (rule exI [of _ ?d])
    using quiz sync stored carried
    apply simp
    done
qed

text \<open>
  The claim as stated fails when the sync of the quiz finds no offline attempt: the sync
  resolves with \<open>updated\<close> false, having changed nothing, and the event is emitted.
\<close>

theorem auto_synced_event_counterexample:
  "syncQuiz gone quiz7 (Some False) (Some ''site'')
       [CGetAllAttempts ''site'', CGetQuizById 3 7 ''site''] =
     (Inr \<lparr>warnings = [], attemptFinished = False, updated = False\<rparr>,
      [CSyncActivity 7 ''site'', CGetQuizAttempts 7 ''site'',
       CInvalidateAllQuizData 7 3 None ''site'', CSetSyncTime 7 ''site'']) \<and>
   syncAllQuizzesFunc gone True ''site'' [] =
     (Inr (),
      [CGetAllAttempts ''site'', CGetQuizById 3 7 ''site'', CSyncActivity 7 ''site'',
       CGetQuizAttempts 7 ''site'', CInvalidateAllQuizData 7 3 None ''site'',
       CSetSyncTime 7 ''site'', CTrigger 7 False [] ''site''])"
  by code_simp

subsection \<open>The callbacks of Promise.all\<close>

lemma left_to_call_simps [simp]:
  "left_to_call [] = {}"
  "left_to_call ((j, outcome, todo) # tasks) = set todo \<union> left_to_call tasks"
  by (simp_all add: left_to_call_def)

lemma unsettled_simps [simp]:
  "unsettled [] = {}"
  "unsettled ((j, outcome, todo) # tasks) = insert outcome (unsettled tasks)"
  by (simp_all add: unsettled_def)

lemma resume_progress:
  assumes "resume i tasks = (tasks', cs, outcomes)"
  shows "set cs \<union> left_to_call tasks' = left_to_call tasks \<and>
         set outcomes \<union> unsettled tasks' = unsettled tasks"
  using assms
  by (induction i tasks arbitrary: tasks' cs outcomes rule: resume.induct)
     (auto split: if_splits list.splits prod.splits)

lemma resume_each_progress:
  assumes "resume_each turns tasks = (tasks', cs, outcomes)"
  shows "set cs \<union> left_to_call tasks' = left_to_call tasks \<and>
         set outcomes \<union> unsettled tasks' = unsettled tasks"
  using assms
proof (induction turns arbitrary: tasks tasks' cs outcomes)
  case Nil
  then show ?case by simp
next
  case (Cons i turns)
  obtain t1 c1 o1 where one: "resume i tasks = (t1, c1, o1)"
    by (cases "resume i tasks") auto
  obtain t2 c2 o2 where rest: "resume_each turns t1 = (t2, c2, o2)"
    by (cases "resume_each turns t1") auto
  from Cons.prems one rest have "tasks' = t2" "cs = c1 @ c2" "outcomes = o1 @ o2"
    by simp_all
  with resume_progress [OF one] Cons.IH [OF rest] show ?case
    by auto
qed

lemma resume_all_progress:
  assumes "resume_all tasks = (tasks', cs, outcomes)"
  shows "set cs \<union> left_to_call tasks' = left_to_call tasks \<and>
         set outcomes \<union> unsettled tasks' = unsettled tasks"
  using assms
  by (induction tasks arbitrary: tasks' cs outcomes rule: resume_all.induct)
     (auto split: prod.splits)

lemma in_turn_progress:
  assumes "in_turn tasks = (cs, outcomes)"
  shows "set cs = left_to_call tasks \<and> set outcomes = unsettled tasks"
  using assms
proof (induction tasks arbitrary: cs outcomes rule: in_turn.induct)
  case (1 tasks)
  show ?case
  proof (cases "tasks = []")
    case True
    with "1.prems" show ?thesis by (simp add: in_turn.simps [of "[]"])
  next
    case False
    obtain t1 c1 o1 where one: "resume_all tasks = (t1, c1, o1)"
      by (cases "resume_all tasks") auto
    obtain c2 o2 where rest: "in_turn t1 = (c2, o2)"
      by (cases "in_turn t1") auto
    from "1.prems" False one rest have "cs = c1 @ c2" "outcomes = o1 @ o2"
      by (simp_all add: in_turn.simps [of tasks])
    with resume_all_progress [OF one] "1.IH" [OF False one [symmetric] refl rest] show ?thesis
      by auto
  qed
qed

lemma first_rejected_None: "first_rejected outcomes = None \<longleftrightarrow> (\<forall>err. Inl err \<notin> set outcomes)"
  by (induction outcomes rule: first_rejected.induct) auto

lemma first_rejected_Some: "first_rejected outcomes = Some err \<Longrightarrow> Inl err \<in> set outcomes"
  by (induction outcomes rule: first_rejected.induct) auto

lemma started_tasks:
  "left_to_call (map (\<lambda>(i, callback). (i, callback h)) (enumerate n callbacks))
     = (\<Union>callback \<in> set callbacks. set (snd (callback h)))"
  "unsettled (map (\<lambda>(i, callback). (i, callback h)) (enumerate n callbacks))
     = (\<lambda>callback. fst (callback h)) ` set callbacks"
  by (induction callbacks arbitrary: n) (auto simp: left_to_call_def unsettled_def)

lemma promise_all_callbacks_run:
  fixes turns callbacks h
  defines "run \<equiv> promise_all_callbacks turns callbacks h"
  shows "set (snd run) = (\<Union>callback \<in> set callbacks. set (snd (callback h)))"
    and "(\<exists>xs. fst run = Inr xs) \<longleftrightarrow> (\<forall>callback \<in> set callbacks. \<forall>err. fst (callback h) \<noteq> Inl err)"
    and "fst run = Inl err \<Longrightarrow> \<exists>callback \<in> set callbacks. fst (callback h) = Inl err"
proof -
  let ?tasks = "map (\<lambda>(i, callback). (i, callback h)) (enumerate 0 callbacks)"
  obtain t1 c1 o1 where one: "resume_all ?tasks = (t1, c1, o1)"
    by (cases "resume_all ?tasks") auto
  obtain t2 c2 o2 where two: "resume_each turns t1 = (t2, c2, o2)"
    by (cases "resume_each turns t1") auto
  obtain c3 o3 where three: "in_turn t2 = (c3, o3)"
    by (cases "in_turn t2") auto
  have run: "run = ((case first_rejected (o1 @ o2 @ o3) of
                        Some err \<Rightarrow> Inl err
                      | None \<Rightarrow> Inr (map (\<lambda>_. ()) callbacks)), c1 @ c2 @ c3)"
    by (simp add: run_def promise_all_callbacks_def one two three)
  have calls: "set (c1 @ c2 @ c3) = (\<Union>callback \<in> set callbacks. set (snd (callback h)))"
    using resume_all_progress [OF one] resume_each_progress [OF two] in_turn_progress [OF three]
      started_tasks(1) [of h 0 callbacks]
    by auto
  have outcomes: "set (o1 @ o2 @ o3) = (\<lambda>callback. fst (callback h)) ` set callbacks"
    using resume_all_progress [OF one] resume_each_progress [OF two] in_turn_progress [OF three]
      started_tasks(2) [of h 0 callbacks]
    by auto
  show "set (snd run) = (\<Union>callback \<in> set callbacks. set (snd (callback h)))"
    using calls by (simp add: run)
  show "(\<exists>xs. fst run = Inr xs) \<longleftrightarrow> (\<forall>callback \<in> set callbacks. \<forall>err. fst (callback h) \<noteq> Inl err)"
  proof (cases "first_rejected (o1 @ o2 @ o3)")
    case None
    then have "\<forall>err. Inl err \<notin> set (o1 @ o2 @ o3)"
      by (simp add: first_rejected_None)
    with None show ?thesis
      unfolding outcomes by (force simp: run)
  next
    case (Some err)
    then have "Inl err \<in> set (o1 @ o2 @ o3)"
      by (rule first_rejected_Some)
    then obtain callback where "callback \<in> set callbacks" "fst (callback h) = Inl err"
      unfolding outcomes by force
    with Some show ?thesis
      by (auto simp: run)
  qed
  show "\<exists>callback \<in> set callbacks. fst (callback h) = Inl err" if "fst run = Inl err"
  proof -
    from that have "first_rejected (o1 @ o2 @ o3) = Some err"
      by (auto simp: run split: option.splits)
    then have "Inl err \<in> set (o1 @ o2 @ o3)"
      by (rule first_rejected_Some)
    then show ?thesis
      unfolding outcomes by auto
  qed
qed

lemma syncCallbacks_treated:
  assumes "callback \<in> set (syncCallbacks e force siteId seen attempts)"
  shows "callback = resolve () \<or>
     (\<exists>attempt. treated attempts attempt \<and> off_quizid attempt \<notin> set seen \<and>
        callback = syncAttempt e force siteId attempt)"
  using assms
proof (induction attempts arbitrary: seen)
  case Nil
  then show ?case by simp
next
  case (Cons a attempts)
  show ?case
  proof (cases "callback \<in> set (syncCallbacks e force siteId
      (if off_quizid a \<in> set seen then seen else off_quizid a # seen) attempts)")
    case True
    from Cons.IH [OF True] consider "callback = resolve ()"
      | attempt where "treated attempts attempt"
          "off_quizid attempt \<notin> set (if off_quizid a \<in> set seen then seen else off_quizid a # seen)"
          "callback = syncAttempt e force siteId attempt"
      by blast
    then show ?thesis
    proof cases
      case 1
      then show ?thesis by simp
    next
      case 2
      from 2(2) have "off_quizid a \<noteq> off_quizid attempt" "off_quizid attempt \<notin> set seen"
        by (auto split: if_splits)
      with 2(1) have "treated (a # attempts) attempt"
        by (simp add: treated_def)
      with 2(3) \<open>off_quizid attempt \<notin> set seen\<close> show ?thesis
        by blast
    qed
  next
    case False
    with Cons.prems have "callback = resolve () \<or>
        (off_quizid a \<notin> set seen \<and> callback = syncAttempt e force siteId a)"
      by (auto split: if_splits)
    moreover have "treated (a # attempts) a"
      by (simp add: treated_def)
    ultimately show ?thesis
      by blast
  qed
qed

lemma treated_syncCallbacks:
  assumes "treated attempts attempt" and "off_quizid attempt \<notin> set seen"
  shows "syncAttempt e force siteId attempt \<in> set (syncCallbacks e force siteId seen attempts)"
  using assms
proof (induction attempts arbitrary: seen)
  case Nil
  then show ?case by (simp add: treated_def)
next
  case (Cons a attempts)
  show ?case
  proof (cases "off_quizid a = off_quizid attempt")
    case True
    with Cons.prems show ?thesis
      by (auto simp: treated_def)
  next
    case False
    with Cons.prems have "treated attempts attempt"
      by (simp add: treated_def)
    with Cons.IH [of "off_quizid a # seen"] Cons.IH [of seen] Cons.prems(2) False show ?thesis
      by auto
  qed
qed

text \<open>
  Claim C6, as amended. The offline attempts are listed; an attempt is treated when it is
  the first attempt of its quiz in the list. Whatever the order in which the calls are
  answered: \<open>syncAllQuizzesFunc\<close> resolves exactly when the callbacks of all the treated
  attempts resolve, so a failure is not caught; when it rejects, it rejects with the
  rejection of one of these callbacks; and every call of every callback is made, whether
  or not another callback has rejected, so a failure does not stop the others. In
  particular, for a treated attempt whose quiz is not blocked and was fetched: when the
  sync of the quiz rejects, \<open>syncAllQuizzesFunc\<close> rejects; when the sync resolves with
  warnings, the warnings are stored.
\<close>

theorem batch_failures:
  fixes e force siteId h attempts
  defines "listed \<equiv> h @ [CGetAllAttempts siteId]"
  defines "run \<equiv> syncAllQuizzesFunc e force siteId h"
  defines "callback \<equiv> (\<lambda>attempt. syncAttempt e force siteId attempt listed)"
  defines "fetched \<equiv> (\<lambda>attempt.
     listed @ [CGetQuizById (off_courseid attempt) (off_quizid attempt) siteId])"
  assumes "getAllAttempts e listed = Inr attempts"
  shows "(fst run = Inr () \<longleftrightarrow>
            (\<forall>attempt. treated attempts attempt \<longrightarrow> fst (callback attempt) = Inr ())) \<and>
         (\<forall>err. fst run = Inl err \<longrightarrow>
            (\<exists>attempt. treated attempts attempt \<and> fst (callback attempt) = Inl err)) \<and>
         (\<forall>attempt. treated attempts attempt \<longrightarrow>
            set (snd (callback attempt)) \<subseteq> set (snd run)) \<and>
         (\<forall>attempt quiz.
            treated attempts attempt \<and> \<not> isBlocked e listed (off_quizid attempt) siteId \<and>
            getQuizById e (fetched attempt) = Inr quiz \<longrightarrow>
            (\<forall>err. fst (syncQuizForcedOrIfNeeded e force siteId quiz (fetched attempt)) = Inl err
               \<longrightarrow> (\<exists>err'. fst run = Inl err')) \<and>
            (\<forall>d. fst (syncQuizForcedOrIfNeeded e force siteId quiz (fetched attempt)) = Inr (Some d)
                  \<and> warnings d \<noteq> []
               \<longrightarrow> CSetSyncWarnings (quiz_id quiz) (warnings d) siteId \<in> set (snd run)))"
proof -
  let ?callbacks = "syncCallbacks e force siteId [] attempts"
  let ?all = "promise_all_callbacks (answered e listed) ?callbacks listed"
  have result: "fst run = (case fst ?all of Inl err \<Rightarrow> Inl err | Inr xs \<Rightarrow> Inr ())"
    using assms(5)
    by (simp add: run_def syncAllQuizzesFunc_def run_simps listed_def split: sum.splits)
  have calls: "snd run = CGetAllAttempts siteId # snd ?all"
    using assms(5)
    by (simp add: run_def syncAllQuizzesFunc_def run_simps listed_def split: sum.splits)
  have started: "syncAttempt e force siteId attempt \<in> set ?callbacks"
    if "treated attempts attempt" for attempt
    using that by (intro treated_syncCallbacks) simp_all
  have only: "fst (cb listed) = Inr () \<or>
      (\<exists>attempt. treated attempts attempt \<and> cb = syncAttempt e force siteId attempt)"
    if "cb \<in> set ?callbacks" for cb
    using syncCallbacks_treated [OF that] by (auto simp: resolve_def)
  have resolves: "fst run = Inr () \<longleftrightarrow>
      (\<forall>attempt. treated attempts attempt \<longrightarrow> fst (callback attempt) = Inr ())"
  proof
    assume "fst run = Inr ()"
    then have "\<exists>xs. fst ?all = Inr xs"
      by (auto simp: result split: sum.splits)
    then have free: "\<forall>cb \<in> set ?callbacks. \<forall>err. fst (cb listed) \<noteq> Inl err"
      by (simp only: promise_all_callbacks_run(2))
    show "\<forall>attempt. treated attempts attempt \<longrightarrow> fst (callback attempt) = Inr ()"
    proof (intro allI impI)
      fix attempt
      assume "treated attempts attempt"
      with free started have "\<forall>err. fst (callback attempt) \<noteq> Inl err"
        by (auto simp: callback_def)
      then show "fst (callback attempt) = Inr ()"
        by (cases "fst (callback attempt)") auto
    qed
  next
    assume all: "\<forall>attempt. treated attempts attempt \<longrightarrow> fst (callback attempt) = Inr ()"
    have "\<forall>cb \<in> set ?callbacks. \<forall>err. fst (cb listed) \<noteq> Inl err"
    proof (intro ballI allI)
      fix cb err
      assume "cb \<in> set ?callbacks"
      from only [OF this] all show "fst (cb listed) \<noteq> Inl err"
        by (auto simp: callback_def)
    qed
    then have "\<exists>xs. fst ?all = Inr xs"
      by (simp only: promise_all_callbacks_run(2))
    then show "fst run = Inr ()"
      by (auto simp: result)
  qed
  have rejects: "\<exists>attempt. treated attempts attempt \<and> fst (callback attempt) = Inl err"
    if "fst run = Inl err" for err
  proof -
    from that have "fst ?all = Inl err"
      by (auto simp: result split: sum.splits)
    then obtain cb where cb: "cb \<in> set ?callbacks" "fst (cb listed) = Inl err"
      using promise_all_callbacks_run(3) by blast
    with only [OF cb(1)] show ?thesis
      by (auto simp: callback_def)
  qed
  have made: "set (snd (callback attempt)) \<subseteq> set (snd run)"
    if "treated attempts attempt" for attempt
    using started [OF that] promise_all_callbacks_run(1) [of "answered e listed" ?callbacks listed]
    by (auto simp: calls callback_def)
  have failure: "\<exists>err'. fst run = Inl err'"
    if "treated attempts attempt" "\<not> isBlocked e listed (off_quizid attempt) siteId"
      "getQuizById e (fetched attempt) = Inr quiz"
      "fst (syncQuizForcedOrIfNeeded e force siteId quiz (fetched attempt)) = Inl err"
    for attempt quiz err
  proof -
    from that(2-4) have "fst (callback attempt) = Inl err"
      by (simp add: callback_def fetched_def syncAttempt_run)
    with that(1) resolves have "fst run \<noteq> Inr ()"
      by auto
    then show ?thesis
      by (cases "fst run") auto
  qed
  have stored: "CSetSyncWarnings (quiz_id quiz) (warnings d) siteId \<in> set (snd run)"
    if "treated attempts attempt" "\<not> isBlocked e listed (off_quizid attempt) siteId"
      "getQuizById e (fetched attempt) = Inr quiz"
      "fst (syncQuizForcedOrIfNeeded e force siteId quiz (fetched attempt)) = Inr (Some d)"
      "warnings d \<noteq> []"
    for attempt quiz d
  proof -
    from that(2-5) have "CSetSyncWarnings (quiz_id quiz) (warnings d) siteId
        \<in> set (snd (callback attempt))"
      by (auto simp: callback_def fetched_def syncAttempt_run split: option.splits)
    with made [OF that(1)] show ?thesis
      by blast
  qed
  show ?thesis
    using resolves rejects made failure stored by blast
qed

text \<open>
  Of the three quizzes, quiz 9 is the last listed and the first to fail when the calls
  are answered in turn, and \<open>syncAllQuizzesFunc\<close> rejects with its failure; when the
  calls of the first callback are answered first, it rejects with the failure of quiz 8.
  The sync of quiz 7 is carried through in both cases.
\<close>

theorem batch_failures_witness:
  "syncAllQuizzesFunc three_quizzes True ''site'' [] =
     (Inl (ServiceError ''notfound''),
      [CGetAllAttempts ''site'', CGetQuizById 3 8 ''site'', CGetQuizById 3 7 ''site'',
       CGetQuizById 3 9 ''site'', CSyncActivity 8 ''site'', CSyncActivity 7 ''site'',
       CGetQuizAttempts 8 ''site'', CGetQuizAttempts 7 ''site'',
       CGetUserAttempts 8 12 True ''site'', CGetUserAttempts 7 11 True ''site'',
       CGetAttemptAnswers 21 ''site'', CGetQuizAccessInformation 7 ''site'',
       CGetPreflightData 7 [] 21 (Some False) ''site'',
       CGetAllQuestionsData 7 21 [] [0] ''site'',
       CRemoveQuestionAndAnswers 21 5 (Some ''site''), CProcessAttempt 7 21 [] [] False ''site'',
       CLogViewAttempt 21 2 [] ''site'', CInvalidateAllQuizData 7 3 (Some 21) ''site'',
       CRemoveAttemptAndAnswers 21 ''site'', CDeleteOfflineData (question5 4) 11 ''site'',
       CGetModuleBasicInfoByInstance 7 ''site'', CGetModuleUpdates 11 3 (Some ''site''),
       CSetStatusAfterPrefetch 7 11 False (Some ''site''), CSetSyncTime 7 ''site'',
       CGetUserAttempts 7 11 False ''site'',
       CSetSyncWarnings 7 [''addon.mod_quiz.warningdatadiscardedfromfinished''] ''site'',
       CTrigger 7 False [''addon.mod_quiz.warningdatadiscardedfromfinished''] ''site'']) \<and>
   fst (syncAllQuizzesFunc (three_quizzes\<lparr>answered := (\<lambda>_. [0, 0, 0, 0])\<rparr>) True ''site'' []) =
     Inl (ServiceError ''timeout'') \<and>
   (\<exists>attempt. treated [stored31, stored21, stored41] attempt \<and>
      fst (syncAttempt three_quizzes True ''site'' attempt [CGetAllAttempts ''site''])
        = Inl (ServiceError ''notfound'')) \<and>
   set (snd (syncAttempt three_quizzes True ''site'' stored21 [CGetAllAttempts ''site'']))
     \<subseteq> set (snd (syncAllQuizzesFunc three_quizzes True ''site'' []))"
proof -
  have run: "syncAllQuizzesFunc three_quizzes True ''site'' [] =
     (Inl (ServiceError ''notfound''),
      [CGetAllAttempts ''site'', CGetQuizById 3 8 ''site'', CGetQuizById 3 7 ''site'',
       CGetQuizById 3 9 ''site'', CSyncActivity 8 ''site'', CSyncActivity 7 ''site'',
       CGetQuizAttempts 8 ''site'', CGetQuizAttempts 7 ''site'',
       CGetUserAttempts 8 12 True ''site'', CGetUserAttempts 7 11 True ''site'',
       CGetAttemptAnswers 21 ''site'', CGetQuizAccessInformation 7 ''site'',
       CGetPreflightData 7 [] 21 (Some False) ''site'',
       CGetAllQuestionsData 7 21 [] [0] ''site'',
       CRemoveQuestionAndAnswers 21 5 (Some ''site''), CProcessAttempt 7 21 [] [] False ''site'',
       CLogViewAttempt 21 2 [] ''site'', CInvalidateAllQuizData 7 3 (Some 21) ''site'',
       CRemoveAttemptAndAnswers 21 ''site'', CDeleteOfflineData (question5 4) 11 ''site'',
       CGetModuleBasicInfoByInstance 7 ''site'', CGetModuleUpdates 11 3 (Some ''site''),
       CSetStatusAfterPrefetch 7 11 False (Some ''site''), CSetSyncTime 7 ''site'',
       CGetUserAttempts 7 11 False ''site'',
       CSetSyncWarnings 7 [''addon.mod_quiz.warningdatadiscardedfromfinished''] ''site'',
       CTrigger 7 False [''addon.mod_quiz.warningdatadiscardedfromfinished''] ''site''])"
    by code_simp
  have other: "fst (syncAllQuizzesFunc (three_quizzes\<lparr>answered := (\<lambda>_. [0, 0, 0, 0])\<rparr>)
      True ''site'' []) = Inl (ServiceError ''timeout'')"
    by code_simp
  have listed: "getAllAttempts three_quizzes ([] @ [CGetAllAttempts ''site''])
      = Inr [stored31, stored21, stored41]"
    by (simp add: three_quizzes_def)
  have treated: "treated [stored31, stored21, stored41] stored21"
    by (simp add: treated_def stored31_def stored21_def stored41_def)
  note facts = batch_failures [OF listed, of True]
  from facts run have "\<exists>attempt. treated [stored31, stored21, stored41] attempt \<and>
      fst (syncAttempt three_quizzes True ''site'' attempt [CGetAllAttempts ''site''])
        = Inl (ServiceError ''notfound'')"
    by simp
  moreover from facts treated
  have "set (snd (syncAttempt three_quizzes True ''site'' stored21 [CGetAllAttempts ''site'']))
     \<subseteq> set (snd (syncAllQuizzesFunc three_quizzes True ''site'' []))"
    by simp
  ultimately show ?thesis
    using run other by (intro conjI)
qed

text \<open>
  The claim as stated fails when the sync of a quiz fails: with the device not online the
  sync of quiz 7 rejects, and so does \<open>syncAllQuizzesFunc\<close>.
\<close>

theorem batch_failures_counterexample:
  "syncQuiz disconnected quiz7 (Some False) (Some ''site'')
       [CGetAllAttempts ''site'', CGetQuizById 3 7 ''site''] =
     (Inl (CoreError ''core.cannotconnect''),
      [CSyncActivity 7 ''site'', CGetQuizAttempts 7 ''site'']) \<and>
   syncAllQuizzesFunc disconnected True ''site'' [] =
     (Inl (CoreError ''core.cannotconnect''),
      [CGetAllAttempts ''site'', CGetQuizById 3 7 ''site'', CSyncActivity 7 ''site'',
       CGetQuizAttempts 7 ''site''])"
  by code_simp

section \<open>syncQuiz: one sync in flight\<close>

text \<open>
  Claim C8. No sync of the quiz is in flight for the site and the quiz is not blocked: a
  first call of \<open>syncQuiz\<close> starts \<open>performSyncQuiz\<close> and registers its promise. A
  second call for the same quiz and site, made while that promise is in flight (from any
  history, whatever the lock says then, whatever \<open>askPreflight\<close>), receives the
  outcome of the first call and makes no call of its own: it does not check the lock and
  starts no second \<open>performSyncQuiz\<close>. So the two calls together submit what the one
  \<open>performSyncQuiz\<close> submits: at most once, and exactly once when it submits at all.
\<close>

theorem single_flight:
  fixes e e' quiz askPreflight askPreflight' siteId siteId' h h' syncs
  defines "site \<equiv> or_string siteId (getCurrentSiteId e)"
  defines "first \<equiv> syncQuiz (with_syncs syncs e) quiz askPreflight siteId h"
  defines "syncs' \<equiv> syncQuiz_syncs (with_syncs syncs e) quiz askPreflight siteId h syncs"
  defines "second \<equiv> syncQuiz (with_syncs syncs' e') quiz askPreflight' siteId' h'"
  assumes "getOngoingSyncIn syncs (quiz_id quiz) site = None"
      and "\<not> isBlocked e h (quiz_id quiz) site"
      and "or_string siteId' (getCurrentSiteId e') = site"
  shows "first = performSyncQuiz (with_syncs syncs e) quiz askPreflight (Some site) h \<and>
         second = (fst first, []) \<and>
         length (filter is_submission (snd first @ snd second)) \<le> 1 \<and>
         (list_ex is_submission (snd first) \<longrightarrow>
            length (filter is_submission (snd first @ snd second)) = 1)"
proof -
  have first: "first = performSyncQuiz (with_syncs syncs e) quiz askPreflight (Some site) h"
    using assms(5,6)
    by (simp add: first_def site_def syncQuiz_def with_syncs_def Let_def)
  have "getOngoingSyncIn syncs' (quiz_id quiz) site = Some (fst first)"
    using assms(5,6)
    by (simp add: syncs'_def first site_def syncQuiz_syncs_def with_syncs_def Let_def
        getOngoingSyncIn_def addOngoingSyncTo_def)
  then have second: "second = (fst first, [])"
    using assms(7)
    by (simp add: second_def syncQuiz_def with_syncs_def Let_def)
  have one: "length (filter is_submission (snd first)) \<le> 1"
    unfolding first by (rule performSyncQuiz_one_submission)
  moreover have "length (filter is_submission (snd first)) \<noteq> 0" if "list_ex is_submission (snd first)"
    using that by (simp add: list_ex_iff filter_empty_conv)
  ultimately show ?thesis
    using first second by (auto simp: le_Suc_eq)
qed

theorem single_flight_witness:
  "syncQuiz (with_syncs (syncQuiz_syncs (with_syncs [] demo) quiz7 None None [] [])
              (demo\<lparr>isBlocked := (\<lambda>_ _ _. True)\<rparr>))
     quiz7 (Some True) (Some ''site'') [CSyncActivity 7 ''site''] =
     (Inr \<lparr>warnings = [], attemptFinished = True, updated = True\<rparr>, []) \<and>
   fst (syncQuiz (with_syncs [] demo) quiz7 None None []) =
     Inr \<lparr>warnings = [], attemptFinished = True, updated = True\<rparr> \<and>
   filter is_submission (snd (syncQuiz (with_syncs [] demo) quiz7 None None [])) =
     [CProcessAttempt 7 21 [('':sequencecheck'', ''3''), (''answer'', ''42'')] [] True ''site'']"
proof -
  have first: "fst (syncQuiz (with_syncs [] demo) quiz7 None None []) =
      Inr \<lparr>warnings = [], attemptFinished = True, updated = True\<rparr>"
    by code_simp
  have submitted: "filter is_submission (snd (syncQuiz (with_syncs [] demo) quiz7 None None [])) =
      [CProcessAttempt 7 21 [('':sequencecheck'', ''3''), (''answer'', ''42'')] [] True ''site'']"
    by code_simp
  have none: "getOngoingSyncIn [] (quiz_id quiz7) (or_string None (getCurrentSiteId demo)) = None"
    by (simp add: getOngoingSyncIn_def)
  have free: "\<not> isBlocked demo [] (quiz_id quiz7) (or_string None (getCurrentSiteId demo))"
    by (simp add: demo_def)
  have site: "or_string (Some ''site'') (getCurrentSiteId (demo\<lparr>isBlocked := (\<lambda>_ _ _. True)\<rparr>))
      = or_string None (getCurrentSiteId demo)"
    by (simp add: demo_def or_string_def)
  from single_flight [OF none free site, of None "Some True" "[CSyncActivity 7 ''site'']"]
  have "syncQuiz (with_syncs (syncQuiz_syncs (with_syncs [] demo) quiz7 None None [] [])
              (demo\<lparr>isBlocked := (\<lambda>_ _ _. True)\<rparr>))
     quiz7 (Some True) (Some ''site'') [CSyncActivity 7 ''site''] =
     (fst (syncQuiz (with_syncs [] demo) quiz7 None None []), [])"
    by simp
  with first submitted show ?thesis
    by simp
qed

end
